theory Spec2Isabelle
  imports Main "HOL-Library.Multiset"
begin

section \<open>Python values used by the two marketplace scripts\<close>

text \<open>
  The scripts \<open>seller.py\<close> (Ozon) and \<open>market.py\<close> (Yandex Market) read rows of a
  spreadsheet as dictionaries and turn them into stock and price records.

  A Python \<open>str\<close> is the list of its code points, each a natural number; \<open>py\<close> turns
  an ASCII literal into that list. A spreadsheet cell is \<open>None\<close> (also what \<open>dict.get\<close>
  gives for a missing key), a \<open>str\<close> or an \<open>int\<close>; floating-point cells are outside the
  model.
\<close>

type_synonym pystr = "nat list"

definition py :: "string \<Rightarrow> pystr" where
  "py s = map of_char s"

datatype error = AttributeError | ValueError | TypeError | IndexError | HTTPError

datatype cell = PyNone | PyStr pystr | PyInt int

type_synonym row = "pystr \<rightharpoonup> cell"

definition dict_get :: "row \<Rightarrow> pystr \<Rightarrow> cell" where
  \<comment> \<open>\<open>watch.get(key)\<close>: the value, or \<open>None\<close> when the key is missing\<close>
  "dict_get watch key = (case watch key of None \<Rightarrow> PyNone | Some v \<Rightarrow> v)"

definition key_code :: pystr where
  \<comment> \<open>the column header of the product code, three Cyrillic letters\<close>
  "key_code = [1050, 1086, 1076]"

definition key_count :: pystr where
  \<comment> \<open>the column header of the quantity indicator, ten Cyrillic letters\<close>
  "key_count = [1050, 1086, 1083, 1080, 1095, 1077, 1089, 1090, 1074, 1086]"

definition key_price :: pystr where
  \<comment> \<open>the column header of the price, four Cyrillic letters\<close>
  "key_price = [1062, 1077, 1085, 1072]"

subsection \<open>\<open>str()\<close>\<close>

definition is_digit :: "nat \<Rightarrow> bool" where
  \<comment> \<open>the ASCII digits 0 to 9\<close>
  "is_digit c = (48 \<le> c \<and> c \<le> 57)"

definition digit_val :: "nat \<Rightarrow> nat" where
  "digit_val c = c - 48"

fun str_nat :: "nat \<Rightarrow> pystr" where
  "str_nat n =
     (if n < 10 then [48 + n]
      else str_nat (n div 10) @ [48 + n mod 10])"

declare str_nat.simps [simp del]

text \<open>
  An \<open>int\<close> cell is an integral number of the spreadsheet, of 309 digits at most, so
  that \<open>str\<close> never meets the interpreter's limit on the digits of a conversion.
\<close>

definition py_str :: "cell \<Rightarrow> pystr" where
  "py_str v =
     (case v of
        PyNone \<Rightarrow> py ''None''
      | PyStr s \<Rightarrow> s
      | PyInt i \<Rightarrow> (if i < 0 then 45 # str_nat (nat (- i)) else str_nat (nat i)))"

subsection \<open>\<open>int()\<close>\<close>

text \<open>
  \<open>int(s)\<close> of a \<open>str\<close>, in base ten, as the interpreter computes it. Every character
  from code point 127 on is first replaced: a Unicode white space by a blank, a Unicode
  decimal digit by the ASCII digit of its value; any other such character makes the
  call fail. The ASCII text is then read: white space of the C locale (tab, line feed,
  vertical tab, form feed, carriage return, blank) is dropped at both ends, one sign
  may come first, and the rest must be digits, single underscores allowed between two
  digits. More than \<open>int_max_str_digits\<close> digits make the call fail. Every failure is
  a \<open>ValueError\<close>.

  The tables are those of Unicode 14.0 (CPython 3.11); the limit is the interpreter's
  default.
\<close>

definition unicode_space :: "nat \<Rightarrow> bool" where
  \<comment> \<open>the characters for which \<open>str.isspace\<close> holds\<close>
  "unicode_space c = (c \<in> set [
      0x9, 0xA, 0xB, 0xC, 0xD, 0x1C, 0x1D, 0x1E,
      0x1F, 0x20, 0x85, 0xA0, 0x1680, 0x2000, 0x2001, 0x2002,
      0x2003, 0x2004, 0x2005, 0x2006, 0x2007, 0x2008, 0x2009, 0x200A,
      0x2028, 0x2029, 0x202F, 0x205F, 0x3000])"

definition decimal_zeros :: "nat list" where
  \<comment> \<open>the digit zero of every run of ten decimal digits\<close>
  "decimal_zeros = [
      0x30, 0x660, 0x6F0, 0x7C0, 0x966, 0x9E6, 0xA66, 0xAE6,
      0xB66, 0xBE6, 0xC66, 0xCE6, 0xD66, 0xDE6, 0xE50, 0xED0,
      0xF20, 0x1040, 0x1090, 0x17E0, 0x1810, 0x1946, 0x19D0, 0x1A80,
      0x1A90, 0x1B50, 0x1BB0, 0x1C40, 0x1C50, 0xA620, 0xA8D0, 0xA900,
      0xA9D0, 0xA9F0, 0xAA50, 0xABF0, 0xFF10, 0x104A0, 0x10D30, 0x11066,
      0x110F0, 0x11136, 0x111D0, 0x112F0, 0x11450, 0x114D0, 0x11650, 0x116C0,
      0x11730, 0x118E0, 0x11950, 0x11C50, 0x11D50, 0x11DA0, 0x16A60, 0x16AC0,
      0x16B50, 0x1D7CE, 0x1D7D8, 0x1D7E2, 0x1D7EC, 0x1D7F6, 0x1E140, 0x1E2F0,
      0x1E950, 0x1FBF0]"

definition to_decimal :: "nat \<Rightarrow> nat option" where
  \<comment> \<open>the value of a decimal digit, ASCII or not\<close>
  "to_decimal c =
     (case find (\<lambda>z. z \<le> c \<and> c < z + 10) decimal_zeros of
        None \<Rightarrow> None
      | Some z \<Rightarrow> Some (c - z))"

definition to_ascii :: "nat \<Rightarrow> nat option" where
  "to_ascii c =
     (if c < 127 then Some c
      else if unicode_space c then Some 32
      else (case to_decimal c of None \<Rightarrow> None | Some d \<Rightarrow> Some (48 + d)))"

fun to_ascii_str :: "pystr \<Rightarrow> pystr option" where
  "to_ascii_str [] = Some []"
| "to_ascii_str (c # cs) =
     (case to_ascii c of
        None \<Rightarrow> None
      | Some a \<Rightarrow> (case to_ascii_str cs of None \<Rightarrow> None | Some as \<Rightarrow> Some (a # as)))"

definition is_space :: "nat \<Rightarrow> bool" where
  \<comment> \<open>white space of the C locale\<close>
  "is_space c = (c \<in> set [0x09, 0x0A, 0x0B, 0x0C, 0x0D, 0x20])"

definition strip :: "pystr \<Rightarrow> pystr" where
  "strip s = rev (dropWhile is_space (rev (dropWhile is_space s)))"

definition int_max_str_digits :: nat where
  "int_max_str_digits = 4300"

fun parse_digits :: "nat \<Rightarrow> pystr \<Rightarrow> nat option" where
  \<comment> \<open>decimal digits, single underscores allowed between two digits\<close>
  "parse_digits acc [] = Some acc"
| "parse_digits acc [c] = (if is_digit c then Some (10 * acc + digit_val c) else None)"
| "parse_digits acc (c # d # cs) =
     (if is_digit c then parse_digits (10 * acc + digit_val c) (d # cs)
      else if c = 95 \<and> is_digit d then parse_digits acc (d # cs)
      else None)"

definition parse_unsigned :: "pystr \<Rightarrow> nat option" where
  "parse_unsigned s =
     (case s of
        [] \<Rightarrow> None
      | c # cs \<Rightarrow>
          if is_digit c \<and> length (filter is_digit s) \<le> int_max_str_digits
          then parse_digits (digit_val c) cs
          else None)"

definition int_of_str :: "pystr \<Rightarrow> error + int" where
  "int_of_str s =
     (case to_ascii_str s of
        None \<Rightarrow> Inl ValueError
      | Some a \<Rightarrow>
          (case strip a of
             [] \<Rightarrow> Inl ValueError
           | c # cs \<Rightarrow>
               if c = 45 then
                 (case parse_unsigned cs of None \<Rightarrow> Inl ValueError | Some n \<Rightarrow> Inr (- int n))
               else if c = 43 then
                 (case parse_unsigned cs of None \<Rightarrow> Inl ValueError | Some n \<Rightarrow> Inr (int n))
               else
                 (case parse_unsigned (c # cs) of None \<Rightarrow> Inl ValueError | Some n \<Rightarrow> Inr (int n))))"

definition py_int :: "cell \<Rightarrow> error + int" where
  "py_int v =
     (case v of
        PyNone \<Rightarrow> Inl TypeError
      | PyStr s \<Rightarrow> int_of_str s
      | PyInt i \<Rightarrow> Inr i)"

section \<open>The price normalizer\<close>

text \<open>
  \<^verbatim>\<open>return re.sub("[^0-9]", "", price.split(".")[0])\<close>
\<close>

fun py_split :: "nat \<Rightarrow> pystr \<Rightarrow> pystr list" where
  \<comment> \<open>\<open>s.split(sep)\<close> for a separator of one character: always at least one part\<close>
  "py_split sep [] = [[]]"
| "py_split sep (c # cs) =
     (if c = sep then [] # py_split sep cs
      else (case py_split sep cs of
              [] \<Rightarrow> [[c]]
            | p # ps \<Rightarrow> (c # p) # ps))"

definition index0 :: "'a list \<Rightarrow> error + 'a" where
  \<comment> \<open>\<open>xs[0]\<close>\<close>
  "index0 xs = (case xs of [] \<Rightarrow> Inl IndexError | x # _ \<Rightarrow> Inr x)"

fun re_sub_non_digit :: "pystr \<Rightarrow> pystr" where
  \<comment> \<open>\<open>re.sub("[^0-9]", "", s)\<close>: every character outside the range 0-9 is replaced by nothing\<close>
  "re_sub_non_digit [] = []"
| "re_sub_non_digit (c # cs) =
     (if \<not> is_digit c then re_sub_non_digit cs else c # re_sub_non_digit cs)"

definition dot :: nat where
  \<comment> \<open>the character \<open>.\<close>\<close>
  "dot = 46"

definition price_conversion :: "cell \<Rightarrow> error + pystr" where
  "price_conversion price =
     (case price of
        PyStr s \<Rightarrow>
          (case index0 (py_split dot s) of
             Inl e \<Rightarrow> Inl e
           | Inr first \<Rightarrow> Inr (re_sub_non_digit first))
      | _ \<Rightarrow> Inl AttributeError)"

definition digits_before_point :: "pystr \<Rightarrow> pystr" where
  \<comment> \<open>the normalizer as the specification words it: the ASCII digits of the prefix before
      the first dot\<close>
  "digits_before_point s = filter is_digit (takeWhile (\<lambda>c. c \<noteq> dot) s)"

definition price_rub :: pystr where
  \<comment> \<open>the price of the docstring: 5'990.00, a space, three Cyrillic letters and a dot\<close>
  "price_rub = py ''5'990.00 '' @ [1088, 1091, 1073] @ py ''.''"

section \<open>The batcher\<close>

text \<open>
  \<^verbatim>\<open>for i in range(0, len(lst), n): yield lst[i : i + n]\<close>

  The generator is modelled by the list of the chunks it yields: every caller wraps it
  in \<open>list(...)\<close>. \<open>range\<close> raises \<open>ValueError\<close> for a step of zero.
\<close>

function range_up :: "int \<Rightarrow> int \<Rightarrow> int \<Rightarrow> int list" where
  "range_up i stop step = (if 0 < step \<and> i < stop then i # range_up (i + step) stop step else [])"
  by pat_completeness auto
termination
  by (relation "measure (\<lambda>(i, stop, step). nat (stop - i))") auto

function range_down :: "int \<Rightarrow> int \<Rightarrow> int \<Rightarrow> int list" where
  "range_down i stop step = (if step < 0 \<and> stop < i then i # range_down (i + step) stop step else [])"
  by pat_completeness auto
termination
  by (relation "measure (\<lambda>(i, stop, step). nat (i - stop))") auto

declare range_up.simps [simp del] range_down.simps [simp del]

definition py_range :: "int \<Rightarrow> int \<Rightarrow> int \<Rightarrow> error + int list" where
  "py_range start stop step =
     (if step = 0 then Inl ValueError
      else if 0 < step then Inr (range_up start stop step)
      else Inr (range_down start stop step))"

definition py_slice :: "'a list \<Rightarrow> int \<Rightarrow> int \<Rightarrow> 'a list" where
  \<comment> \<open>\<open>lst[lo:hi]\<close>: a negative bound counts from the end, both are clamped to the list\<close>
  "py_slice lst lo hi =
     (let n = int (length lst);
          lo' = (if lo < 0 then max (lo + n) 0 else min lo n);
          hi' = (if hi < 0 then max (hi + n) 0 else min hi n)
      in take (nat (hi' - lo')) (drop (nat lo') lst))"

definition divide :: "'a list \<Rightarrow> int \<Rightarrow> error + 'a list list" where
  "divide lst n =
     (case py_range 0 (int (length lst)) n of
        Inl e \<Rightarrow> Inl e
      | Inr starts \<Rightarrow> Inr (map (\<lambda>i. py_slice lst i (i + n)) starts))"

section \<open>The reconciliation transform\<close>

subsection \<open>Quantity resolution, shared by both scripts\<close>

text \<open>
  \<^verbatim>\<open>
  count = str(watch.get(<quantity>))
  if count == ">10":  stock = 100
  elif count == "1":  stock = 0
  else:               stock = int(watch.get(<quantity>))
  \<close>
\<close>

definition resolve_stock :: "row \<Rightarrow> error + int" where
  "resolve_stock watch =
     (let count = py_str (dict_get watch key_count)
      in if count = py ''>10'' then Inr 100
         else if count = py ''1'' then Inr 0
         else py_int (dict_get watch key_count))"

subsection \<open>Stocks for Ozon (\<open>seller.create_stocks\<close>)\<close>

record seller_stock =
  stock_offer_id :: pystr
  stock :: int

text \<open>
  The function returns the stock list and mutates the list \<open>offer_ids\<close> it was given;
  the model returns the result (or the exception) together with the final content of
  that list.
\<close>

fun seller_match :: "row list \<Rightarrow> seller_stock list \<Rightarrow> pystr list
    \<Rightarrow> (error + seller_stock list) \<times> pystr list" where
  "seller_match [] stocks offer_ids = (Inr stocks, offer_ids)"
| "seller_match (watch # rest) stocks offer_ids =
     (if py_str (dict_get watch key_code) \<in> set offer_ids then
        (case resolve_stock watch of
           Inl e \<Rightarrow> (Inl e, offer_ids)
         | Inr q \<Rightarrow>
             seller_match rest
               (stocks @ [\<lparr>stock_offer_id = py_str (dict_get watch key_code), stock = q\<rparr>])
               (remove1 (py_str (dict_get watch key_code)) offer_ids))
      else seller_match rest stocks offer_ids)"

definition seller_create_stocks :: "row list \<Rightarrow> pystr list
    \<Rightarrow> (error + seller_stock list) \<times> pystr list" where
  "seller_create_stocks watch_remnants offer_ids =
     (case seller_match watch_remnants [] offer_ids of
        (Inl e, offer_ids') \<Rightarrow> (Inl e, offer_ids')
      | (Inr stocks, offer_ids') \<Rightarrow>
          (Inr (stocks @ map (\<lambda>offer_id. \<lparr>stock_offer_id = offer_id, stock = 0\<rparr>) offer_ids'),
           offer_ids'))"

subsection \<open>Stocks for Yandex Market (\<open>market.create_stocks\<close>)\<close>

record market_item =
  item_count :: int
  item_type :: pystr
  updatedAt :: pystr

record market_stock =
  sku :: pystr
  warehouseId :: pystr
  items :: "market_item list"

text \<open>The time stamp \<open>date\<close> is read from the clock once, before the loop: a parameter.\<close>

definition market_record :: "pystr \<Rightarrow> pystr \<Rightarrow> pystr \<Rightarrow> int \<Rightarrow> market_stock" where
  "market_record warehouse_id date code q =
     \<lparr>sku = code, warehouseId = warehouse_id,
      items = [\<lparr>item_count = q, item_type = py ''FIT'', updatedAt = date\<rparr>]\<rparr>"

fun market_match :: "pystr \<Rightarrow> pystr \<Rightarrow> row list \<Rightarrow> market_stock list \<Rightarrow> pystr list
    \<Rightarrow> (error + market_stock list) \<times> pystr list" where
  "market_match warehouse_id date [] stocks offer_ids = (Inr stocks, offer_ids)"
| "market_match warehouse_id date (watch # rest) stocks offer_ids =
     (if py_str (dict_get watch key_code) \<in> set offer_ids then
        (case resolve_stock watch of
           Inl e \<Rightarrow> (Inl e, offer_ids)
         | Inr q \<Rightarrow>
             market_match warehouse_id date rest
               (stocks @ [market_record warehouse_id date (py_str (dict_get watch key_code)) q])
               (remove1 (py_str (dict_get watch key_code)) offer_ids))
      else market_match warehouse_id date rest stocks offer_ids)"

definition market_create_stocks :: "pystr \<Rightarrow> row list \<Rightarrow> pystr list \<Rightarrow> pystr
    \<Rightarrow> (error + market_stock list) \<times> pystr list" where
  "market_create_stocks date watch_remnants offer_ids warehouse_id =
     (case market_match warehouse_id date watch_remnants [] offer_ids of
        (Inl e, offer_ids') \<Rightarrow> (Inl e, offer_ids')
      | (Inr stocks, offer_ids') \<Rightarrow>
          (Inr (stocks @ map (\<lambda>offer_id. market_record warehouse_id date offer_id 0) offer_ids'),
           offer_ids'))"

subsection \<open>Prices\<close>

record seller_price =
  auto_action_enabled :: pystr
  currency_code :: pystr
  price_offer_id :: pystr
  old_price :: pystr
  price :: pystr

fun seller_prices_loop :: "row list \<Rightarrow> pystr list \<Rightarrow> seller_price list
    \<Rightarrow> error + seller_price list" where
  "seller_prices_loop [] offer_ids prices = Inr prices"
| "seller_prices_loop (watch # rest) offer_ids prices =
     (if py_str (dict_get watch key_code) \<in> set offer_ids then
        (case price_conversion (dict_get watch key_price) of
           Inl e \<Rightarrow> Inl e
         | Inr p \<Rightarrow>
             seller_prices_loop rest offer_ids
               (prices @ [\<lparr>auto_action_enabled = py ''UNKNOWN'', currency_code = py ''RUB'',
                           price_offer_id = py_str (dict_get watch key_code),
                           old_price = py ''0'', price = p\<rparr>]))
      else seller_prices_loop rest offer_ids prices)"

definition seller_create_prices :: "row list \<Rightarrow> pystr list \<Rightarrow> error + seller_price list" where
  "seller_create_prices watch_remnants offer_ids = seller_prices_loop watch_remnants offer_ids []"

record market_price_value =
  price_value :: int
  currencyId :: pystr

record market_price =
  price_id :: pystr
  price_body :: market_price_value

fun market_prices_loop :: "row list \<Rightarrow> pystr list \<Rightarrow> market_price list
    \<Rightarrow> error + market_price list" where
  "market_prices_loop [] offer_ids prices = Inr prices"
| "market_prices_loop (watch # rest) offer_ids prices =
     (if py_str (dict_get watch key_code) \<in> set offer_ids then
        (case price_conversion (dict_get watch key_price) of
           Inl e \<Rightarrow> Inl e
         | Inr p \<Rightarrow>
             (case int_of_str p of
                Inl e \<Rightarrow> Inl e
              | Inr v \<Rightarrow>
                  market_prices_loop rest offer_ids
                    (prices @ [\<lparr>price_id = py_str (dict_get watch key_code),
                                price_body = \<lparr>price_value = v, currencyId = py ''RUR''\<rparr>\<rparr>])))
      else market_prices_loop rest offer_ids prices)"

definition market_create_prices :: "row list \<Rightarrow> pystr list \<Rightarrow> error + market_price list" where
  "market_create_prices watch_remnants offer_ids = market_prices_loop watch_remnants offer_ids []"

section \<open>The remote offer lister\<close>

text \<open>
  Each request goes to the marketplace, which the scripts do not control. The model
  takes the marketplace as a parameter \<open>get_product_list\<close>: the answer to the \<open>k\<close>-th
  request of a listing, given the page token sent with it, is a decoded page or the
  exception that \<open>raise_for_status\<close> or the decoding raises. The credentials do not
  change during a listing and are part of that parameter.

  The loops are \<^verbatim>\<open>while True\<close> loops, left only by \<^verbatim>\<open>break\<close>: a listing that never
  returns has the value \<open>None\<close>.
\<close>

record ozon_product =
  product_offer_id :: pystr

record ozon_page =
  page_items :: "ozon_product list"
  page_total :: int
  page_last_id :: pystr

partial_function (option) ozon_listing ::
    "(nat \<Rightarrow> pystr \<Rightarrow> error + ozon_page) \<Rightarrow> nat \<Rightarrow> pystr \<Rightarrow> ozon_product list
      \<Rightarrow> (error + ozon_product list) option" where
  "ozon_listing get_product_list k last_id product_list =
     (case get_product_list k last_id of
        Inl e \<Rightarrow> Some (Inl e)
      | Inr some_prod \<Rightarrow>
          if page_total some_prod = int (length (product_list @ page_items some_prod))
          then Some (Inr (product_list @ page_items some_prod))
          else ozon_listing get_product_list (Suc k) (page_last_id some_prod)
                 (product_list @ page_items some_prod))"

definition seller_get_offer_ids ::
    "(nat \<Rightarrow> pystr \<Rightarrow> error + ozon_page) \<Rightarrow> (error + pystr list) option" where
  "seller_get_offer_ids get_product_list =
     (case ozon_listing get_product_list 0 [] [] of
        None \<Rightarrow> None
      | Some (Inl e) \<Rightarrow> Some (Inl e)
      | Some (Inr product_list) \<Rightarrow> Some (Inr (map product_offer_id product_list)))"

record yandex_entry =
  shopSku :: pystr

record yandex_page =
  offerMappingEntries :: "yandex_entry list"
  nextPageToken :: "pystr option"

definition py_not :: "pystr option \<Rightarrow> bool" where
  \<comment> \<open>\<open>not page\<close>: true for \<open>None\<close> and for the empty string\<close>
  "py_not page = (case page of None \<Rightarrow> True | Some s \<Rightarrow> s = [])"

partial_function (option) yandex_listing ::
    "(nat \<Rightarrow> pystr option \<Rightarrow> error + yandex_page) \<Rightarrow> nat \<Rightarrow> pystr option \<Rightarrow> yandex_entry list
      \<Rightarrow> (error + yandex_entry list) option" where
  "yandex_listing get_product_list k page product_list =
     (case get_product_list k page of
        Inl e \<Rightarrow> Some (Inl e)
      | Inr some_prod \<Rightarrow>
          if py_not (nextPageToken some_prod)
          then Some (Inr (product_list @ offerMappingEntries some_prod))
          else yandex_listing get_product_list (Suc k) (nextPageToken some_prod)
                 (product_list @ offerMappingEntries some_prod))"

definition market_get_offer_ids ::
    "(nat \<Rightarrow> pystr option \<Rightarrow> error + yandex_page) \<Rightarrow> (error + pystr list) option" where
  "market_get_offer_ids get_product_list =
     (case yandex_listing get_product_list 0 (Some []) [] of
        None \<Rightarrow> None
      | Some (Inl e) \<Rightarrow> Some (Inl e)
      | Some (Inr product_list) \<Rightarrow> Some (Inr (map shopSku product_list)))"

text \<open>
  What the two pagination idioms expect of the marketplace, in the words of the
  specification: the pages \<open>ps\<close> are the answers to the requests \<open>k\<close>, \<open>k + 1\<close>, ...,
  each request carrying the token of the page before, and the last page of \<open>ps\<close> is
  the first one at which the stop condition holds. \<open>n\<close> is the number of items
  accumulated before request \<open>k\<close>.
\<close>

fun ozon_pages :: "(nat \<Rightarrow> pystr \<Rightarrow> error + ozon_page) \<Rightarrow> nat \<Rightarrow> pystr \<Rightarrow> nat
    \<Rightarrow> ozon_page list \<Rightarrow> bool" where
  "ozon_pages srv k tok n [] = False"
| "ozon_pages srv k tok n [p] =
     (srv k tok = Inr p \<and> page_total p = int (n + length (page_items p)))"
| "ozon_pages srv k tok n (p # q # ps) =
     (srv k tok = Inr p \<and> page_total p \<noteq> int (n + length (page_items p))
      \<and> ozon_pages srv (Suc k) (page_last_id p) (n + length (page_items p)) (q # ps))"

fun yandex_pages :: "(nat \<Rightarrow> pystr option \<Rightarrow> error + yandex_page) \<Rightarrow> nat \<Rightarrow> pystr option
    \<Rightarrow> yandex_page list \<Rightarrow> bool" where
  "yandex_pages srv k tok [] = False"
| "yandex_pages srv k tok [p] =
     (srv k tok = Inr p \<and> (nextPageToken p = None \<or> nextPageToken p = Some []))"
| "yandex_pages srv k tok (p # q # ps) =
     (srv k tok = Inr p \<and> nextPageToken p \<noteq> None \<and> nextPageToken p \<noteq> Some []
      \<and> yandex_pages srv (Suc k) (nextPageToken p) (q # ps))"

section \<open>Uploading the stocks\<close>

text \<open>
  \<open>update_stocks\<close> sends one batch to the marketplace and returns the decoded answer,
  or raises on a non-success status; it is a parameter like \<open>get_product_list\<close>, the
  number of the batch being its first argument. The callers ignore the answer.

  Both \<open>upload_stocks\<close> are declared \<^verbatim>\<open>async\<close> and hold no \<^verbatim>\<open>await\<close>: the model is the
  value the coroutine returns once it is run.
\<close>

fun submit_all :: "(nat \<Rightarrow> 'r list \<Rightarrow> error + 'j) \<Rightarrow> nat \<Rightarrow> 'r list list \<Rightarrow> error + unit" where
  "submit_all update k [] = Inr ()"
| "submit_all update k (some # rest) =
     (case update k some of
        Inl e \<Rightarrow> Inl e
      | Inr _ \<Rightarrow> submit_all update (Suc k) rest)"

definition seller_upload_stocks ::
    "(nat \<Rightarrow> pystr \<Rightarrow> error + ozon_page) \<Rightarrow> (nat \<Rightarrow> seller_stock list \<Rightarrow> error + 'j) \<Rightarrow> row list
      \<Rightarrow> (error + seller_stock list \<times> seller_stock list) option" where
  "seller_upload_stocks get_product_list update_stocks watch_remnants =
     (case seller_get_offer_ids get_product_list of
        None \<Rightarrow> None
      | Some (Inl e) \<Rightarrow> Some (Inl e)
      | Some (Inr offer_ids) \<Rightarrow>
          (case fst (seller_create_stocks watch_remnants offer_ids) of
             Inl e \<Rightarrow> Some (Inl e)
           | Inr stocks \<Rightarrow>
               (case divide stocks 100 of
                  Inl e \<Rightarrow> Some (Inl e)
                | Inr batches \<Rightarrow>
                    (case submit_all update_stocks 0 batches of
                       Inl e \<Rightarrow> Some (Inl e)
                     | Inr _ \<Rightarrow> Some (Inr (filter (\<lambda>s. stock s \<noteq> 0) stocks, stocks))))))"

fun market_not_empty :: "market_stock list \<Rightarrow> error + market_stock list" where
  \<comment> \<open>\<open>filter(lambda stock: stock.get("items")[0].get("count") != 0, stocks)\<close>\<close>
  "market_not_empty [] = Inr []"
| "market_not_empty (s # rest) =
     (case index0 (items s) of
        Inl e \<Rightarrow> Inl e
      | Inr first \<Rightarrow>
          (case market_not_empty rest of
             Inl e \<Rightarrow> Inl e
           | Inr kept \<Rightarrow> Inr (if item_count first \<noteq> 0 then s # kept else kept)))"

definition market_upload_stocks ::
    "pystr \<Rightarrow> (nat \<Rightarrow> pystr option \<Rightarrow> error + yandex_page)
      \<Rightarrow> (nat \<Rightarrow> market_stock list \<Rightarrow> error + 'j) \<Rightarrow> row list \<Rightarrow> pystr
      \<Rightarrow> (error + market_stock list \<times> market_stock list) option" where
  "market_upload_stocks date get_product_list update_stocks watch_remnants warehouse_id =
     (case market_get_offer_ids get_product_list of
        None \<Rightarrow> None
      | Some (Inl e) \<Rightarrow> Some (Inl e)
      | Some (Inr offer_ids) \<Rightarrow>
          (case fst (market_create_stocks date watch_remnants offer_ids warehouse_id) of
             Inl e \<Rightarrow> Some (Inl e)
           | Inr stocks \<Rightarrow>
               (case divide stocks 2000 of
                  Inl e \<Rightarrow> Some (Inl e)
                | Inr batches \<Rightarrow>
                    (case submit_all update_stocks 0 batches of
                       Inl e \<Rightarrow> Some (Inl e)
                     | Inr _ \<Rightarrow>
                         (case market_not_empty stocks of
                            Inl e \<Rightarrow> Some (Inl e)
                          | Inr not_empty \<Rightarrow> Some (Inr (not_empty, stocks)))))))"

section \<open>Vocabulary of the properties\<close>

text \<open>The string key of a row: \<open>str(watch.get(<code>))\<close>, as all four loops compute it.\<close>

abbreviation row_code :: "row \<Rightarrow> pystr" where
  "row_code watch \<equiv> py_str (dict_get watch key_code)"

text \<open>
  The integer that a text denotes, in the words of the specification ("parse the
  indicator as an integer"): the decimal digits of the text, most significant first,
  in positional notation, negated when the text holds a minus sign.
\<close>

fun positional :: "nat list \<Rightarrow> nat" where
  "positional [] = 0"
| "positional (d # ds) = d * 10 ^ length ds + positional ds"

definition literal_value :: "pystr \<Rightarrow> int" where
  "literal_value s =
     (if 45 \<in> set s then - int (positional (List.map_filter to_decimal s))
      else int (positional (List.map_filter to_decimal s)))"

text \<open>
  The Yandex record that carries the same identifier and quantity as an Ozon record:
  the two create_stocks differ in the record they build and in nothing else.
\<close>

definition to_market :: "pystr \<Rightarrow> pystr \<Rightarrow> seller_stock \<Rightarrow> market_stock" where
  "to_market warehouse_id date s = market_record warehouse_id date (stock_offer_id s) (stock s)"

text \<open>
  What a price record owes to the row it was made from: the identifier is the row's
  string key, the price is the normalized price cell (for Yandex, that digit pystr
  read as an integer), and the other fields are the constants of the source.
\<close>

definition seller_price_of :: "row \<Rightarrow> seller_price \<Rightarrow> bool" where
  "seller_price_of w p \<longleftrightarrow>
     price_conversion (dict_get w key_price) = Inr (price p) \<and>
     price_offer_id p = row_code w \<and> auto_action_enabled p = py ''UNKNOWN'' \<and>
     currency_code p = py ''RUB'' \<and> old_price p = (py ''0'')"

definition market_price_of :: "row \<Rightarrow> market_price \<Rightarrow> bool" where
  "market_price_of w p \<longleftrightarrow>
     (case price_conversion (dict_get w key_price) of
        Inl e \<Rightarrow> False
      | Inr digits \<Rightarrow> int_of_str digits = Inr (price_value (price_body p))) \<and>
     price_id p = row_code w \<and> currencyId (price_body p) = (py ''RUR'')"

subsection \<open>Concrete inputs\<close>

text \<open>A spreadsheet row with the three columns the scripts read.\<close>

definition mk_row :: "cell \<Rightarrow> cell \<Rightarrow> cell \<Rightarrow> row" where
  "mk_row code_cell count_cell price_cell =
     [key_code \<mapsto> code_cell, key_count \<mapsto> count_cell, key_price \<mapsto> price_cell]"

text \<open>
  A marketplace with three offers on two pages; any request other than the two the
  listing is expected to send is answered with an HTTP error.
\<close>

definition ozon_example :: "nat \<Rightarrow> pystr \<Rightarrow> error + ozon_page" where
  "ozon_example k tok =
     (if k = 0 \<and> tok = [] then
        Inr \<lparr>page_items = [\<lparr>product_offer_id = py ''001''\<rparr>, \<lparr>product_offer_id = py ''002''\<rparr>],
             page_total = 3, page_last_id = py ''t1''\<rparr>
      else if k = 1 \<and> tok = py ''t1'' then
        Inr \<lparr>page_items = [\<lparr>product_offer_id = py ''003''\<rparr>], page_total = 3, page_last_id = []\<rparr>
      else Inl HTTPError)"

definition yandex_example :: "nat \<Rightarrow> pystr option \<Rightarrow> error + yandex_page" where
  "yandex_example k tok =
     (if k = 0 \<and> tok = Some [] then
        Inr \<lparr>offerMappingEntries = [\<lparr>shopSku = py ''001''\<rparr>, \<lparr>shopSku = py ''002''\<rparr>],
             nextPageToken = Some (py ''t1'')\<rparr>
      else if k = 1 \<and> tok = Some (py ''t1'') then
        Inr \<lparr>offerMappingEntries = [\<lparr>shopSku = py ''003''\<rparr>], nextPageToken = None\<rparr>
      else Inl HTTPError)"

section \<open>Evaluation of literals\<close>

lemma py_simps [simp]: "py [] = []" "py (c # cs) = of_char c # py cs"
  by (simp_all add: py_def)

lemma dot_eq [simp]: "dot = 46"
  by (simp add: dot_def)

lemmas int_of_str_eval = int_of_str_def to_ascii_def strip_def is_space_def parse_unsigned_def
  is_digit_def digit_val_def int_max_str_digits_def

section \<open>Properties of \<open>int()\<close>\<close>

lemma decimal_zeros_split: "decimal_zeros = 48 # tl decimal_zeros"
  by (simp add: decimal_zeros_def)

lemma decimal_zeros_tl: "\<forall>z\<in>set (tl decimal_zeros). 1632 \<le> z"
  by (simp add: decimal_zeros_def)

lemma to_decimal_ascii:
  assumes "c < 127"
  shows "to_decimal c = (if is_digit c then Some (digit_val c) else None)"
proof -
  have "find (\<lambda>z. z \<le> c \<and> c < z + 10) (tl decimal_zeros) = None"
    using decimal_zeros_tl assms by (fastforce simp: find_None_iff)
  then have "find (\<lambda>z. z \<le> c \<and> c < z + 10) decimal_zeros = (if is_digit c then Some 48 else None)"
    by (subst decimal_zeros_split) (auto simp: is_digit_def)
  then show ?thesis by (simp add: to_decimal_def digit_val_def)
qed

lemma to_decimal_less: "to_decimal c = Some d \<Longrightarrow> d < 10"
  by (auto simp: to_decimal_def find_Some_iff split: option.splits)


lemma unicode_space_not_decimal: "127 \<le> c \<Longrightarrow> unicode_space c \<Longrightarrow> to_decimal c = None"
  unfolding unicode_space_def to_decimal_def decimal_zeros_def
  by (elim disjE | simp)+

lemma is_space_plain: "is_space c \<Longrightarrow> c < 127 \<and> \<not> is_digit c \<and> c \<noteq> 45"
  by (auto simp: is_space_def is_digit_def)

lemma to_ascii_keeps:
  assumes "to_ascii c = Some a"
  shows "to_decimal c = to_decimal a \<and> (c = 45 \<longleftrightarrow> a = 45) \<and> a < 127"
proof (cases "c < 127")
  case True
  with assms show ?thesis by (simp add: to_ascii_def)
next
  case False
  show ?thesis
  proof (cases "unicode_space c")
    case True
    with False assms have a: "a = 32" by (simp add: to_ascii_def)
    have "to_decimal c = None" using False True by (simp add: unicode_space_not_decimal)
    moreover have "to_decimal 32 = None" by (simp add: to_decimal_ascii is_digit_def)
    ultimately show ?thesis using a False by simp
  next
    case nospace: False
    with False assms obtain d where d: "to_decimal c = Some d" "a = 48 + d"
      by (auto simp: to_ascii_def split: option.splits)
    from d(1) have "d < 10" by (rule to_decimal_less)
    then have "to_decimal (48 + d) = Some d"
      by (simp add: to_decimal_ascii is_digit_def digit_val_def)
    with d False \<open>d < 10\<close> show ?thesis by simp
  qed
qed

lemma to_ascii_str_keeps:
  "to_ascii_str s = Some a \<Longrightarrow>
   List.map_filter to_decimal s = List.map_filter to_decimal a \<and>
   (45 \<in> set s \<longleftrightarrow> 45 \<in> set a)"
proof (induction s arbitrary: a)
  case Nil
  then show ?case by simp
next
  case (Cons c s)
  from Cons.prems obtain x xs where x: "to_ascii c = Some x" "to_ascii_str s = Some xs" "a = x # xs"
    by (auto split: option.splits)
  from to_ascii_keeps [OF x(1)] Cons.IH [OF x(2)] x(3) show ?case
    by (auto simp: map_filter_simps split: option.splits)
qed

lemma strip_parts:
  "\<exists>l r. a = l @ strip a @ r \<and> (\<forall>c\<in>set l. is_space c) \<and> (\<forall>c\<in>set r. is_space c)"
proof -
  let ?m = "dropWhile is_space a"
  have a: "a = takeWhile is_space a @ ?m" by simp
  have m: "?m = strip a @ rev (takeWhile is_space (rev ?m))"
    unfolding strip_def by (metis rev_append rev_rev_ident takeWhile_dropWhile_id)
  have "\<forall>c\<in>set (takeWhile is_space a). is_space c"
    by (auto dest: set_takeWhileD)
  moreover have "\<forall>c\<in>set (rev (takeWhile is_space (rev ?m))). is_space c"
    by (auto dest: set_takeWhileD)
  moreover have "a = takeWhile is_space a @ strip a @ rev (takeWhile is_space (rev ?m))"
    using a m by metis
  ultimately show ?thesis by blast
qed

lemma spaces_no_digits:
  "\<forall>c\<in>set l. is_space c \<Longrightarrow> List.map_filter to_decimal l = [] \<and> 45 \<notin> set l"
proof (induction l)
  case Nil
  show ?case by (simp add: map_filter_simps)
next
  case (Cons c l)
  then have "is_space c" by simp
  from is_space_plain [OF this] have "to_decimal c = None" "c \<noteq> 45"
    by (simp_all add: to_decimal_ascii)
  with Cons show ?case by (simp add: map_filter_simps)
qed

lemma map_filter_append:
  "List.map_filter f (xs @ ys) = List.map_filter f xs @ List.map_filter f ys"
  by (simp add: List.map_filter_def)

lemma strip_keeps:
  "List.map_filter to_decimal a = List.map_filter to_decimal (strip a) \<and>
   (45 \<in> set a \<longleftrightarrow> 45 \<in> set (strip a))"
proof -
  obtain l r where lr: "a = l @ strip a @ r" "\<forall>c\<in>set l. is_space c" "\<forall>c\<in>set r. is_space c"
    using strip_parts by blast
  from spaces_no_digits [OF lr(2)] spaces_no_digits [OF lr(3)]
  have "List.map_filter to_decimal (l @ strip a @ r) = List.map_filter to_decimal (strip a)"
    "45 \<in> set (l @ strip a @ r) \<longleftrightarrow> 45 \<in> set (strip a)"
    by (simp_all add: map_filter_append)
  with lr(1) show ?thesis by simp
qed

lemma digit_decimal:
  assumes "is_digit c"
  shows "to_decimal c = Some (digit_val c) \<and> c \<noteq> 45 \<and> c \<noteq> 43"
proof -
  from assms have "c < 127" "c \<noteq> 45" "c \<noteq> 43" by (simp_all add: is_digit_def)
  with assms show ?thesis by (simp add: to_decimal_ascii)
qed

lemma underscore_decimal: "to_decimal 95 = None"
  by (simp add: to_decimal_ascii is_digit_def)

lemma parse_digits_value:
  "parse_digits acc cs = Some n \<Longrightarrow>
   n = acc * 10 ^ length (List.map_filter to_decimal cs) + positional (List.map_filter to_decimal cs)
   \<and> 45 \<notin> set cs"
proof (induction acc cs arbitrary: n rule: parse_digits.induct)
  case (1 acc)
  then show ?case by (simp add: map_filter_simps)
next
  case (2 acc c)
  then have c: "is_digit c" and n: "n = 10 * acc + digit_val c"
    by (simp_all split: if_splits)
  from digit_decimal [OF c] n show ?case by (simp add: map_filter_simps)
next
  case (3 acc c d cs)
  show ?case
  proof (cases "is_digit c")
    case True
    with 3(3) have "parse_digits (10 * acc + digit_val c) (d # cs) = Some n" by simp
    from 3(1) [OF True this] digit_decimal [OF True] show ?thesis
      by (simp add: map_filter_simps algebra_simps)
  next
    case False
    with 3(3) have u: "c = 95 \<and> is_digit d" and "parse_digits acc (d # cs) = Some n"
      by (simp_all split: if_splits)
    from 3(2) [OF False u this(2)] u underscore_decimal show ?thesis
      by (simp add: map_filter_simps)
  qed
qed

lemma parse_unsigned_value:
  assumes "parse_unsigned s = Some n"
  shows "n = positional (List.map_filter to_decimal s) \<and> 45 \<notin> set s"
proof -
  from assms obtain c cs where s: "s = c # cs" and c: "is_digit c"
    and p: "parse_digits (digit_val c) cs = Some n"
    by (cases s) (auto simp: parse_unsigned_def split: if_splits)
  from parse_digits_value [OF p] digit_decimal [OF c] s show ?thesis
    by (simp add: map_filter_simps)
qed

lemma int_of_str_value:
  assumes "int_of_str s = Inr v"
  shows "v = literal_value s"
proof -
  from assms obtain a where a: "to_ascii_str s = Some a"
    by (auto simp: int_of_str_def split: option.splits)
  with assms obtain c cs where st: "strip a = c # cs"
    by (cases "strip a") (auto simp: int_of_str_def)
  have keep: "List.map_filter to_decimal s = List.map_filter to_decimal (c # cs)"
    "45 \<in> set s \<longleftrightarrow> 45 \<in> set (c # cs)"
    using to_ascii_str_keeps [OF a] strip_keeps [of a] st by simp_all
  consider (minus) "c = 45" | (plus) "c = 43" | (none) "c \<noteq> 45" "c \<noteq> 43" by blast
  then show ?thesis
  proof cases
    case minus
    with assms a st obtain n where n: "parse_unsigned cs = Some n" "v = - int n"
      by (auto simp: int_of_str_def split: option.splits)
    have "to_decimal 45 = None" by (simp add: to_decimal_ascii is_digit_def)
    with parse_unsigned_value [OF n(1)] n(2) keep minus show ?thesis
      by (simp add: literal_value_def map_filter_simps)
  next
    case plus
    with assms a st obtain n where n: "parse_unsigned cs = Some n" "v = int n"
      by (auto simp: int_of_str_def split: option.splits)
    have "to_decimal 43 = None" by (simp add: to_decimal_ascii is_digit_def)
    with parse_unsigned_value [OF n(1)] n(2) keep plus show ?thesis
      by (simp add: literal_value_def map_filter_simps)
  next
    case none
    with assms a st obtain n where n: "parse_unsigned (c # cs) = Some n" "v = int n"
      by (auto simp: int_of_str_def split: option.splits)
    with parse_unsigned_value [OF n(1)] keep show ?thesis
      by (simp add: literal_value_def)
  qed
qed

lemma to_ascii_str_plain: "\<forall>c\<in>set s. c < 127 \<Longrightarrow> to_ascii_str s = Some s"
  by (induction s) (simp_all add: to_ascii_def)

lemma digit_not_space: "is_digit c \<Longrightarrow> \<not> is_space c"
  by (auto simp: is_digit_def is_space_def)

lemma parse_digits_all_digits:
  "\<forall>c\<in>set cs. is_digit c \<Longrightarrow> \<exists>n. parse_digits acc cs = Some n"
  by (induction acc cs rule: parse_digits.induct) auto

lemma strip_digits:
  assumes "s \<noteq> []" "\<forall>c\<in>set s. is_digit c"
  shows "strip s = s"
proof -
  from assms have "\<not> is_space (hd s)" "\<not> is_space (last s)"
    by (simp_all add: digit_not_space)
  with assms(1) have "dropWhile is_space s = s" "dropWhile is_space (rev s) = rev s"
    by (simp_all add: dropWhile_eq_self_iff hd_rev)
  then show ?thesis by (simp add: strip_def)
qed

lemma map_filter_digits:
  "\<forall>c\<in>set s. is_digit c \<Longrightarrow> List.map_filter to_decimal s = map digit_val s"
  by (induction s) (simp_all add: map_filter_simps digit_decimal)

lemma int_of_str_digits:
  assumes "s \<noteq> []" "\<forall>c\<in>set s. is_digit c" "length s \<le> int_max_str_digits"
  shows "int_of_str s = Inr (int (positional (map digit_val s)))"
proof -
  from assms obtain c cs where s: "s = c # cs" by (cases s) auto
  with assms(2) have c: "is_digit c" and cs: "\<forall>c\<in>set cs. is_digit c" by simp_all
  from assms(2) have plain: "\<forall>c\<in>set s. c < 127" by (auto simp: is_digit_def)
  from assms(2) have "filter is_digit s = s" by (simp add: filter_id_conv)
  with assms(3) have lim: "length (filter is_digit (c # cs)) \<le> int_max_str_digits"
    using s by simp
  from parse_digits_all_digits [OF cs] obtain n where "parse_digits (digit_val c) cs = Some n"
    by blast
  with c lim have "parse_unsigned (c # cs) = Some n" by (simp add: parse_unsigned_def)
  with strip_digits [OF assms(1,2)] s digit_decimal [OF c] to_ascii_str_plain [OF plain]
  have r: "int_of_str s = Inr (int n)"
    by (simp add: int_of_str_def)
  from assms(2) have "45 \<notin> set s" using digit_decimal by blast
  with int_of_str_value [OF r] map_filter_digits [OF assms(2)] r show ?thesis
    by (simp add: literal_value_def)
qed

lemma int_of_str_too_long:
  assumes "\<forall>c\<in>set s. is_digit c" "int_max_str_digits < length s"
  shows "int_of_str s = Inl ValueError"
proof -
  from assms(2) have ne: "s \<noteq> []" by auto
  then obtain c cs where s: "s = c # cs" by (cases s) auto
  from assms(1) have plain: "\<forall>c\<in>set s. c < 127" by (auto simp: is_digit_def)
  from assms(1) have "filter is_digit s = s" by (simp add: filter_id_conv)
  with assms(2) s have "parse_unsigned (c # cs) = None"
    by (simp add: parse_unsigned_def)
  moreover from assms(1) s have "is_digit c" by simp
  ultimately show ?thesis
    using strip_digits [OF ne assms(1)] s digit_decimal [of c] to_ascii_str_plain [OF plain]
    by (simp add: int_of_str_def)
qed

lemma str_nat_digits: "str_nat n \<noteq> [] \<and> (\<forall>c\<in>set (str_nat n). is_digit c)"
proof (induction n rule: str_nat.induct)
  case (1 n)
  show ?case
  proof (cases "n < 10")
    case True
    then show ?thesis by (subst (1 2) str_nat.simps) (simp add: is_digit_def)
  next
    case False
    have "n mod 10 < 10" by simp
    then have "is_digit (48 + n mod 10)" by (simp add: is_digit_def)
    with False 1 show ?thesis by (subst (1 2) str_nat.simps) simp
  qed
qed

lemma positional_snoc: "positional (ds @ [d]) = 10 * positional ds + d"
  by (induction ds) (simp_all add: algebra_simps)

lemma str_nat_value: "positional (map digit_val (str_nat n)) = n"
proof (induction n rule: str_nat.induct)
  case (1 n)
  show ?case
  proof (cases "n < 10")
    case True
    then show ?thesis by (subst str_nat.simps) (simp add: digit_val_def)
  next
    case False
    have d: "digit_val (48 + n mod 10) = n mod 10" by (simp add: digit_val_def)
    from False 1 have "positional (map digit_val (str_nat (n div 10))) = n div 10" by simp
    with False d show ?thesis
      by (subst str_nat.simps) (simp add: positional_snoc)
  qed
qed

lemma str_nat_length: "n < 10 ^ k \<Longrightarrow> 0 < k \<Longrightarrow> length (str_nat n) \<le> k"
proof (induction n arbitrary: k rule: str_nat.induct)
  case (1 n)
  show ?case
  proof (cases "n < 10")
    case True
    with 1(3) show ?thesis by (subst str_nat.simps) simp
  next
    case False
    from 1(3) obtain j where k: "k = Suc j" by (cases k) auto
    with 1(2) False have "0 < j" by (cases j) auto
    moreover from 1(2) k have "n div 10 < 10 ^ j"
      by (simp add: less_mult_imp_div_less mult.commute)
    ultimately have "length (str_nat (n div 10)) \<le> j" using 1(1) False by simp
    with False k show ?thesis by (subst str_nat.simps) simp
  qed
qed

lemma int_of_str_minus_digits:
  assumes "s \<noteq> []" "\<forall>c\<in>set s. is_digit c" "length s \<le> int_max_str_digits"
  shows "int_of_str (45 # s) = Inr (- int (positional (map digit_val s)))"
proof -
  from assms obtain c cs where s: "s = c # cs" by (cases s) auto
  with assms(2) have c: "is_digit c" and cs: "\<forall>c\<in>set cs. is_digit c" by simp_all
  from assms(2) have plain: "\<forall>c\<in>set (45 # s). c < 127" by (auto simp: is_digit_def)
  from assms(2) have "filter is_digit s = s" by (simp add: filter_id_conv)
  with assms(3) have lim: "length (filter is_digit (c # cs)) \<le> int_max_str_digits"
    using s by simp
  from parse_digits_all_digits [OF cs] obtain n where "parse_digits (digit_val c) cs = Some n"
    by blast
  with c lim s have p: "parse_unsigned s = Some n" by (simp add: parse_unsigned_def)
  have "\<not> is_space 45" by (simp add: is_space_def)
  moreover from assms(1,2) have "\<not> is_space (last s)" by (simp add: digit_not_space)
  ultimately have "strip (45 # s) = 45 # s"
    using assms(1) by (simp add: strip_def dropWhile_eq_self_iff hd_rev)
  with p to_ascii_str_plain [OF plain] have r: "int_of_str (45 # s) = Inr (- int n)"
    by (simp add: int_of_str_def)
  have "to_decimal 45 = None" by (simp add: to_decimal_ascii is_digit_def)
  with int_of_str_value [OF r] map_filter_digits [OF assms(2)] r show ?thesis
    by (simp add: literal_value_def map_filter_simps)
qed

lemma int_of_str_str_int:
  assumes "\<bar>i\<bar> < 10 ^ int_max_str_digits"
  shows "int_of_str (py_str (PyInt i)) = Inr i"
proof -
  have lim: "0 < int_max_str_digits" by (simp add: int_max_str_digits_def)
  show ?thesis
  proof (cases "i < 0")
    case False
    with assms have "nat i < 10 ^ int_max_str_digits"
      by (simp add: nat_less_iff)
    from str_nat_length [OF this lim] str_nat_digits [of "nat i"] str_nat_value [of "nat i"] False
    show ?thesis by (simp add: py_str_def int_of_str_digits)
  next
    case True
    with assms have "nat (- i) < 10 ^ int_max_str_digits"
      by (simp add: nat_less_iff)
    from str_nat_length [OF this lim] str_nat_digits [of "nat (- i)"] str_nat_value [of "nat (- i)"] True
    show ?thesis by (simp add: py_str_def int_of_str_minus_digits)
  qed
qed

text \<open>What the interpreter answers on a few texts; the comment gives the Python literal.\<close>

lemma int_of_str_examples:
  "int_of_str (py ''7'') = Inr 7"
  "int_of_str (py ''007'') = Inr 7"
  "int_of_str (py '' +1_000 '') = Inr 1000"
  "int_of_str (py ''-12'') = Inr (- 12)"
  "int_of_str [9, 55, 10] = Inr 7"  \<comment> \<open>\<open>"\t7\n"\<close>\<close>
  "int_of_str [160, 53] = Inr 5"  \<comment> \<open>\<open>"\xa05"\<close>, a no-break space\<close>
  "int_of_str [53, 8199] = Inr 5"  \<comment> \<open>the digit five and a figure space\<close>
  "int_of_str [1635, 1636] = Inr 34"  \<comment> \<open>Arabic-Indic digits three and four\<close>
  "int_of_str [65303] = Inr 7"  \<comment> \<open>fullwidth digit seven\<close>
  "int_of_str [160, 45, 53] = Inr (- 5)"  \<comment> \<open>\<open>"\xa0-5"\<close>\<close>
  by (simp_all add: int_of_str_eval unicode_space_def to_decimal_def decimal_zeros_def)

lemma int_of_str_errors:
  "int_of_str [] = Inl ValueError"
  "int_of_str (py ''-'') = Inl ValueError"
  "int_of_str (py ''- 7'') = Inl ValueError"
  "int_of_str (py ''_1'') = Inl ValueError"
  "int_of_str (py ''1_'') = Inl ValueError"
  "int_of_str (py ''1__0'') = Inl ValueError"
  "int_of_str (py ''1.0'') = Inl ValueError"
  "int_of_str (py ''0x10'') = Inl ValueError"
  "int_of_str (py ''abc'') = Inl ValueError"
  "int_of_str [28, 52] = Inl ValueError"  \<comment> \<open>\<open>"\x1c4"\<close>\<close>
  "int_of_str [160, 28, 52] = Inl ValueError"  \<comment> \<open>\<open>"\xa0\x1c4"\<close>\<close>
  "int_of_str [53, 0] = Inl ValueError"  \<comment> \<open>\<open>"5\x00"\<close>\<close>
  "int_of_str [55, 127] = Inl ValueError"  \<comment> \<open>\<open>"7\x7f"\<close>\<close>
  "int_of_str [45, 160, 53] = Inl ValueError"  \<comment> \<open>\<open>"-\xa05"\<close>\<close>
  "int_of_str [178] = Inl ValueError"  \<comment> \<open>superscript two\<close>
  "int_of_str [53, 233] = Inl ValueError"  \<comment> \<open>\<open>"5\xe9"\<close>\<close>
  by (simp_all add: int_of_str_eval unicode_space_def to_decimal_def decimal_zeros_def)

lemma py_int_cells:
  "py_int (PyInt i) = Inr i"
  "py_int PyNone = Inl TypeError"
  "py_int (PyStr s) = int_of_str s"
  by (simp_all add: py_int_def)

lemma py_str_examples:
  "py_str (PyInt 5) = py ''5''"
  "py_str (PyInt 120) = py ''120''"
  "py_str (PyInt (- 12)) = py ''-12''"
  "py_str (PyInt 0) = py ''0''"
  "py_str PyNone = py ''None''"
  by (simp_all add: py_str_def str_nat.simps)

section \<open>Properties of the price normalizer\<close>

lemma py_split_first: "\<exists>ps. py_split sep s = takeWhile (\<lambda>c. c \<noteq> sep) s # ps"
  by (induction s) auto

lemma re_sub_non_digit_filter: "re_sub_non_digit s = filter is_digit s"
  by (induction s) auto

lemma price_conversion_str: "price_conversion (PyStr s) = Inr (digits_before_point s)"
proof -
  obtain ps where "py_split dot s = takeWhile (\<lambda>c. c \<noteq> dot) s # ps"
    using py_split_first by blast
  then show ?thesis
    by (simp add: price_conversion_def index0_def re_sub_non_digit_filter digits_before_point_def)
qed

text \<open>
  C3: on every price pystr the normalizer returns the ASCII digits of the part of the
  input before its first dot (of the whole input when it has no dot) and nothing else;
  the docstring's price gives 5990 and 12.50 gives 12.
\<close>

theorem C3_price_conversion_digits:
  "price_conversion (PyStr s) = Inr (filter is_digit (takeWhile (\<lambda>c. c \<noteq> dot) s))
   \<and> price_conversion (PyStr price_rub) = Inr (py ''5990'')
   \<and> price_conversion (PyStr (py ''12.50'')) = Inr (py ''12'')"
  by (simp add: price_conversion_str digits_before_point_def price_rub_def is_digit_def)

text \<open>
  C4, as amended: the normalizer raises on no pystr at all. An empty pystr, or one
  with no digit before its first dot, gives the empty string; on \<open>None\<close> the call
  fails with \<open>AttributeError\<close>.
\<close>

theorem C4_price_conversion_no_digits:
  "price_conversion PyNone = Inl AttributeError
   \<and> price_conversion (PyStr []) = Inr []
   \<and> (\<exists>r. price_conversion (PyStr s) = Inr r)
   \<and> (filter is_digit (takeWhile (\<lambda>c. c \<noteq> dot) s) = [] \<longrightarrow> price_conversion (PyStr s) = Inr [])"
  by (simp add: price_conversion_str digits_before_point_def) (simp add: price_conversion_def)

theorem C4_price_conversion_witness:
  "price_conversion (PyStr (py ''abc.12'')) = Inr []"
proof -
  have "filter is_digit (takeWhile (\<lambda>c. c \<noteq> dot) (py ''abc.12'')) = []"
    by (simp add: is_digit_def)
  with C4_price_conversion_no_digits [of "(py ''abc.12'')"] show ?thesis by blast
qed

theorem C4_price_conversion_empty_counterexample:
  "price_conversion (PyStr []) = Inr [] \<and> price_conversion (PyStr (py ''abc'')) = Inr []"
  by (simp add: price_conversion_def index0_def is_digit_def)

section \<open>Properties of the batcher\<close>

lemma py_slice_chunk:
  assumes "0 \<le> i" "0 < n"
  shows "py_slice lst i (i + n) = take (nat n) (drop (nat i) lst)"
proof (cases "i \<le> int (length lst)")
  case True
  with assms show ?thesis
    by (auto simp: py_slice_def Let_def min_def)
next
  case False
  with assms show ?thesis
    by (auto simp: py_slice_def Let_def min_def)
qed

lemma range_up_concat:
  "0 < n \<Longrightarrow> 0 \<le> i \<Longrightarrow>
   concat (map (\<lambda>j. py_slice lst j (j + n)) (range_up i (int (length lst)) n)) = drop (nat i) lst"
proof (induction i "int (length lst)" n rule: range_up.induct)
  case (1 i step)
  show ?case
  proof (cases "i < int (length lst)")
    case True
    have split: "take (nat step) (drop (nat i) lst) @ drop (nat (i + step)) lst = drop (nat i) lst"
      using 1(2,3) append_take_drop_id [of "nat step" "drop (nat i) lst"]
      by (simp add: nat_add_distrib add.commute)
    have "concat (map (\<lambda>j. py_slice lst j (j + step)) (range_up (i + step) (int (length lst)) step))
          = drop (nat (i + step)) lst"
      using 1 True by simp
    with 1(2,3) True split show ?thesis
      by (subst range_up.simps) (simp add: py_slice_chunk)
  next
    case False
    with 1 show ?thesis by (subst range_up.simps) simp
  qed
qed

lemma range_up_lengths:
  "0 < n \<Longrightarrow> 0 \<le> i \<Longrightarrow> j \<in> set (range_up i (int (length lst)) n) \<Longrightarrow>
   py_slice lst j (j + n) \<noteq> [] \<and> int (length (py_slice lst j (j + n))) \<le> n"
proof (induction i "int (length lst)" n rule: range_up.induct)
  case (1 i step)
  show ?case
  proof (cases "i < int (length lst)")
    case True
    from 1(4) True 1(2) have "j = i \<or> j \<in> set (range_up (i + step) (int (length lst)) step)"
      by (subst (asm) range_up.simps) simp
    then show ?thesis
    proof
      assume "j = i"
      with 1(2,3) True show ?thesis by (auto simp: py_slice_chunk)
    next
      assume "j \<in> set (range_up (i + step) (int (length lst)) step)"
      with 1 True show ?thesis by simp
    qed
  next
    case False
    with 1(4) show ?thesis by (subst (asm) range_up.simps) simp
  qed
qed

lemma range_up_full:
  "0 < n \<Longrightarrow> 0 \<le> i \<Longrightarrow>
   c \<in> set (butlast (map (\<lambda>j. py_slice lst j (j + n)) (range_up i (int (length lst)) n))) \<Longrightarrow>
   int (length c) = n"
proof (induction i "int (length lst)" n rule: range_up.induct)
  case (1 i step)
  let ?f = "\<lambda>j. py_slice lst j (j + step)"
  show ?case
  proof (cases "i < int (length lst)")
    case True
    have eq: "range_up i (int (length lst)) step = i # range_up (i + step) (int (length lst)) step"
      using True 1(2) by (subst range_up.simps) simp
    show ?thesis
    proof (cases "range_up (i + step) (int (length lst)) step = []")
      case True
      with 1(4) eq show ?thesis by simp
    next
      case False
      then have more: "i + step < int (length lst)"
        by (subst (asm) range_up.simps) (simp split: if_splits)
      from 1(4) eq False
      have "c = ?f i \<or> c \<in> set (butlast (map ?f (range_up (i + step) (int (length lst)) step)))"
        by simp
      then show ?thesis
      proof
        assume "c = ?f i"
        with 1(2,3) more show ?thesis by (simp add: py_slice_chunk)
      next
        assume "c \<in> set (butlast (map ?f (range_up (i + step) (int (length lst)) step)))"
        with 1 True show ?thesis by simp
      qed
    qed
  next
    case False
    with 1(4) show ?thesis by (subst (asm) range_up.simps) simp
  qed
qed

lemma divide_pos: "0 < n \<Longrightarrow> \<exists>chunks. divide lst n = Inr chunks"
  by (simp add: divide_def py_range_def)

text \<open>
  C5: for a positive chunk size the batcher returns, the concatenation of its chunks is
  the input list, no chunk is empty or longer than the chunk size, and every chunk but
  the last has exactly the chunk size.
\<close>

theorem C5_divide_chunks:
  assumes "0 < n"
  shows "\<exists>chunks. divide lst n = Inr chunks \<and> concat chunks = lst \<and>
           (\<forall>c\<in>set chunks. c \<noteq> [] \<and> int (length c) \<le> n) \<and>
           (\<forall>c\<in>set (butlast chunks). int (length c) = n)"
proof -
  let ?chunks = "map (\<lambda>j. py_slice lst j (j + n)) (range_up 0 (int (length lst)) n)"
  have "divide lst n = Inr ?chunks"
    using assms by (simp add: divide_def py_range_def)
  moreover have "concat ?chunks = lst"
    using range_up_concat [OF assms, of 0 lst] by simp
  moreover have "\<forall>c\<in>set ?chunks. c \<noteq> [] \<and> int (length c) \<le> n"
    using range_up_lengths [OF assms, of 0 _ lst] by auto
  moreover have "\<forall>c\<in>set (butlast ?chunks). int (length c) = n"
    using range_up_full [OF assms, of 0 _ lst] by blast
  ultimately show ?thesis by blast
qed

theorem C5_divide_chunks_witness:
  "divide [1, 2, 3, 4, 5 :: nat] 2 = Inr [[1, 2], [3, 4], [5]] \<and>
   (\<exists>chunks. divide [1, 2, 3, 4, 5 :: nat] 2 = Inr chunks \<and> concat chunks = [1, 2, 3, 4, 5] \<and>
      (\<forall>c\<in>set chunks. c \<noteq> [] \<and> int (length c) \<le> 2) \<and>
      (\<forall>c\<in>set (butlast chunks). int (length c) = 2))"
proof -
  have "divide [1, 2, 3, 4, 5 :: nat] 2 = Inr [[1, 2], [3, 4], [5]]"
    by (simp add: divide_def py_range_def range_up.simps py_slice_def)
  moreover have "(0::int) < 2" by simp
  ultimately show ?thesis using C5_divide_chunks [of 2 "[1, 2, 3, 4, 5 :: nat]"] by blast
qed

text \<open>
  C6, as amended: a chunk size of zero makes the batcher raise \<open>ValueError\<close> (from
  \<open>range\<close>, when the generator is first advanced); a negative chunk size raises
  nothing and yields no chunk at all.
\<close>

theorem C6_divide_nonpositive:
  assumes "n \<le> 0"
  shows "divide lst n = (if n = 0 then Inl ValueError else Inr [])"
proof (cases "n = 0")
  case True
  then show ?thesis by (simp add: divide_def py_range_def)
next
  case False
  with assms have "range_down 0 (int (length lst)) n = []"
    by (subst range_down.simps) simp
  with False assms show ?thesis by (simp add: divide_def py_range_def)
qed

theorem C6_divide_nonpositive_witness:
  "divide [1, 2, 3 :: nat] 0 = Inl ValueError"
proof -
  have "(0::int) \<le> 0" by simp
  from C6_divide_nonpositive [OF this, of "[1, 2, 3 :: nat]"] show ?thesis by simp
qed

theorem C6_divide_negative_counterexample:
  "divide [1, 2, 3 :: nat] (- 1) = Inr []"
  by (simp add: divide_def py_range_def range_down.simps)

section \<open>Properties of the reconciliation transform\<close>

subsection \<open>Evaluation on concrete rows\<close>

lemma mk_row_get [simp]:
  "dict_get (mk_row c n p) key_code = c"
  "dict_get (mk_row c n p) key_count = n"
  "dict_get (mk_row c n p) key_price = p"
  by (simp_all add: mk_row_def dict_get_def key_code_def key_count_def key_price_def)

lemma int_of_str_7: "int_of_str (py ''7'') = Inr 7"
  by (simp add: int_of_str_eval)

lemma int_of_str_100: "int_of_str (py ''100'') = Inr 100"
  by (simp add: int_of_str_eval)

subsection \<open>The matching loop\<close>

lemma remove1_distinct_filter: "distinct xs \<Longrightarrow> remove1 a xs = filter (\<lambda>x. x \<noteq> a) xs"
proof (induction xs)
  case Nil
  show ?case by simp
next
  case (Cons x xs)
  show ?case
  proof (cases "x = a")
    case True
    with Cons.prems have "a \<notin> set xs" by simp
    then have "filter (\<lambda>x. x \<noteq> a) xs = xs" by (auto simp: filter_id_conv)
    with True show ?thesis by simp
  next
    case False
    with Cons show ?thesis by simp
  qed
qed

lemma seller_match_acc:
  "seller_match ws acc ids =
     (case seller_match ws [] ids of
        (Inl e, ids') \<Rightarrow> (Inl e, ids')
      | (Inr ms, ids') \<Rightarrow> (Inr (acc @ ms), ids'))"
proof (induction ws arbitrary: acc ids)
  case Nil
  show ?case by simp
next
  case (Cons w ws)
  show ?case
  proof (cases "row_code w \<in> set ids")
    case False
    then show ?thesis using Cons.IH [of acc ids] by simp
  next
    case True
    show ?thesis
    proof (cases "resolve_stock w")
      case (Inl e)
      with True show ?thesis by simp
    next
      case (Inr q)
      let ?r = "\<lparr>stock_offer_id = row_code w, stock = q\<rparr>"
      let ?ids = "remove1 (row_code w) ids"
      have "seller_match ws (acc @ [?r]) ?ids =
            (case seller_match ws [] ?ids of
               (Inl e, ids') \<Rightarrow> (Inl e, ids')
             | (Inr ms, ids') \<Rightarrow> (Inr (acc @ ?r # ms), ids'))"
        using Cons.IH [of "acc @ [?r]" ?ids] by (simp split: prod.splits sum.splits)
      moreover have "seller_match ws [?r] ?ids =
            (case seller_match ws [] ?ids of
               (Inl e, ids') \<Rightarrow> (Inl e, ids')
             | (Inr ms, ids') \<Rightarrow> (Inr (?r # ms), ids'))"
        using Cons.IH [of "[?r]" ?ids] by (simp split: prod.splits sum.splits)
      ultimately show ?thesis using True Inr
        by (simp split: prod.splits sum.splits)
    qed
  qed
qed

lemma seller_match_Cons_hit:
  assumes "row_code w \<in> set ids" "seller_match (w # ws) [] ids = (Inr ms, ids')"
  obtains q ms' where "resolve_stock w = Inr q"
    "seller_match ws [] (remove1 (row_code w) ids) = (Inr ms', ids')"
    "ms = \<lparr>stock_offer_id = row_code w, stock = q\<rparr> # ms'"
proof (cases "resolve_stock w")
  case (Inl e)
  with assms show ?thesis by simp
next
  case (Inr q)
  let ?r = "\<lparr>stock_offer_id = row_code w, stock = q\<rparr>"
  from assms Inr have "seller_match ws [?r] (remove1 (row_code w) ids) = (Inr ms, ids')"
    by simp
  then obtain ms' where "seller_match ws [] (remove1 (row_code w) ids) = (Inr ms', ids')"
    "ms = ?r # ms'"
    by (subst (asm) seller_match_acc) (auto split: prod.splits sum.splits)
  with Inr that show ?thesis by blast
qed

lemma seller_match_append:
  "seller_match (pre @ rest) acc ids =
     (case seller_match pre acc ids of
        (Inl e, ids') \<Rightarrow> (Inl e, ids')
      | (Inr acc', ids') \<Rightarrow> seller_match rest acc' ids')"
  by (induction pre arbitrary: acc ids) (auto split: sum.splits)

lemma seller_match_mset:
  "seller_match ws [] ids = (Inr ms, ids') \<Longrightarrow>
   mset (map stock_offer_id ms) + mset ids' = mset ids"
proof (induction ws arbitrary: ids ms)
  case Nil
  then show ?case by simp
next
  case (Cons w ws)
  show ?case
  proof (cases "row_code w \<in> set ids")
    case False
    with Cons show ?thesis by simp
  next
    case True
    from True Cons.prems obtain q ms' where
      rest: "seller_match ws [] (remove1 (row_code w) ids) = (Inr ms', ids')"
      and ms: "ms = \<lparr>stock_offer_id = row_code w, stock = q\<rparr> # ms'"
      by (rule seller_match_Cons_hit)
    from Cons.IH [OF rest] True ms show ?thesis by simp
  qed
qed

lemma seller_match_left:
  "distinct ids \<Longrightarrow> seller_match ws [] ids = (Inr ms, ids') \<Longrightarrow>
   ids' = filter (\<lambda>x. x \<notin> row_code ` set ws) ids"
proof (induction ws arbitrary: ids ms)
  case Nil
  then show ?case by simp
next
  case (Cons w ws)
  show ?case
  proof (cases "row_code w \<in> set ids")
    case False
    then have "filter (\<lambda>x. x \<notin> row_code ` set (w # ws)) ids = filter (\<lambda>x. x \<notin> row_code ` set ws) ids"
      by (intro filter_cong) auto
    with False Cons show ?thesis by simp
  next
    case True
    from True Cons.prems(2) obtain q ms' where
      rest: "seller_match ws [] (remove1 (row_code w) ids) = (Inr ms', ids')"
      by (rule seller_match_Cons_hit)
    have "ids' = filter (\<lambda>x. x \<notin> row_code ` set ws) (remove1 (row_code w) ids)"
      using Cons.IH [OF _ rest] Cons.prems(1) by simp
    also have "remove1 (row_code w) ids = filter (\<lambda>x. x \<noteq> row_code w) ids"
      using Cons.prems(1) by (rule remove1_distinct_filter)
    also have "filter (\<lambda>x. x \<notin> row_code ` set ws) (filter (\<lambda>x. x \<noteq> row_code w) ids)
             = filter (\<lambda>x. x \<notin> row_code ` set (w # ws)) ids"
      by (induction ids) auto
    finally show ?thesis .
  qed
qed

lemma seller_match_quantity:
  "distinct ids \<Longrightarrow> seller_match ws [] ids = (Inr ms, ids') \<Longrightarrow> r \<in> set ms \<Longrightarrow>
   \<exists>w. find (\<lambda>w. row_code w = stock_offer_id r) ws = Some w \<and> resolve_stock w = Inr (stock r)"
proof (induction ws arbitrary: ids ms)
  case Nil
  then show ?case by simp
next
  case (Cons w ws)
  show ?case
  proof (cases "row_code w \<in> set ids")
    case False
    with Cons.prems have rest: "seller_match ws [] ids = (Inr ms, ids')" by simp
    from seller_match_mset [OF rest] Cons.prems(3)
    have "stock_offer_id r \<in> set ids"
      by (metis image_eqI set_map set_mset_mset union_iff mset_append)
    with False have "row_code w \<noteq> stock_offer_id r" by auto
    with Cons.IH [OF Cons.prems(1) rest Cons.prems(3)] show ?thesis by simp
  next
    case True
    from True Cons.prems(2) obtain q ms' where
      q: "resolve_stock w = Inr q"
      and rest: "seller_match ws [] (remove1 (row_code w) ids) = (Inr ms', ids')"
      and ms: "ms = \<lparr>stock_offer_id = row_code w, stock = q\<rparr> # ms'"
      by (rule seller_match_Cons_hit)
    show ?thesis
    proof (cases "r \<in> set ms'")
      case False
      with Cons.prems(3) ms q show ?thesis by simp
    next
      case in_rest: True
      have d: "distinct (remove1 (row_code w) ids)" using Cons.prems(1) by simp
      from seller_match_mset [OF rest] in_rest
      have "stock_offer_id r \<in> set (remove1 (row_code w) ids)"
        by (metis image_eqI set_map set_mset_mset union_iff mset_append)
      with Cons.prems(1) have "row_code w \<noteq> stock_offer_id r" by auto
      with Cons.IH [OF d rest in_rest] show ?thesis by simp
    qed
  qed
qed

lemma resolve_stock_rule:
  assumes "resolve_stock w = Inr q"
  shows "if py_str (dict_get w key_count) = py ''>10'' then q = 100
         else if py_str (dict_get w key_count) = py ''1'' then q = 0
         else py_int (dict_get w key_count) = Inr q \<and>
              (case dict_get w key_count of
                 PyNone \<Rightarrow> False
               | PyStr s \<Rightarrow> q = literal_value s
               | PyInt i \<Rightarrow> q = i)"
proof -
  have "py_int (dict_get w key_count) = Inr q \<Longrightarrow>
        (case dict_get w key_count of
           PyNone \<Rightarrow> False
         | PyStr s \<Rightarrow> q = literal_value s
         | PyInt i \<Rightarrow> q = i)"
    by (cases "dict_get w key_count") (auto simp: py_int_def dest: int_of_str_value)
  with assms show ?thesis
    by (auto simp: resolve_stock_def Let_def split: if_splits)
qed

subsection \<open>The Yandex loop builds the same list with other records\<close>

lemma market_match_seller:
  "market_match wh d ws (map (to_market wh d) acc) ids =
     (map_sum id (map (to_market wh d)) (fst (seller_match ws acc ids)), snd (seller_match ws acc ids))"
proof (induction ws arbitrary: acc ids)
  case Nil
  show ?case by simp
next
  case (Cons w ws)
  show ?case
  proof (cases "row_code w \<in> set ids")
    case False
    with Cons.IH [of acc ids] show ?thesis by simp
  next
    case True
    show ?thesis
    proof (cases "resolve_stock w")
      case (Inl e)
      with True show ?thesis by simp
    next
      case (Inr q)
      let ?r = "\<lparr>stock_offer_id = row_code w, stock = q\<rparr>"
      have "map (to_market wh d) acc @ [market_record wh d (row_code w) q]
            = map (to_market wh d) (acc @ [?r])"
        by (simp add: to_market_def)
      with True Inr Cons.IH [of "acc @ [?r]" "remove1 (row_code w) ids"] show ?thesis
        by simp
    qed
  qed
qed

lemma market_match_Inr:
  assumes "market_match wh d ws [] ids = (Inr acc, ids')"
  obtains accs where "seller_match ws [] ids = (Inr accs, ids')" "acc = map (to_market wh d) accs"
proof -
  from assms market_match_seller [of wh d ws "[]" ids]
  have "map_sum id (map (to_market wh d)) (fst (seller_match ws [] ids)) = Inr acc"
    and "snd (seller_match ws [] ids) = ids'"
    by simp_all
  then show ?thesis
    by (cases "seller_match ws [] ids"; cases "fst (seller_match ws [] ids)")
       (auto intro: that)
qed

lemma market_create_stocks_seller:
  "market_create_stocks d ws ids wh =
     (map_sum id (map (to_market wh d)) (fst (seller_create_stocks ws ids)),
      snd (seller_create_stocks ws ids))"
proof -
  have "market_match wh d ws [] ids =
     (map_sum id (map (to_market wh d)) (fst (seller_match ws [] ids)), snd (seller_match ws [] ids))"
    using market_match_seller [of wh d ws "[]" ids] by simp
  then show ?thesis
    by (auto simp: market_create_stocks_def seller_create_stocks_def to_market_def
             split: prod.splits sum.splits)
qed

lemma market_create_stocks_Inr:
  assumes "market_create_stocks d ws ids wh = (Inr out, ids')"
  obtains outs where "seller_create_stocks ws ids = (Inr outs, ids')"
    "out = map (to_market wh d) outs"
proof -
  from assms have "map_sum id (map (to_market wh d)) (fst (seller_create_stocks ws ids)) = Inr out"
    and "snd (seller_create_stocks ws ids) = ids'"
    by (simp_all add: market_create_stocks_seller)
  then show ?thesis
    by (cases "seller_create_stocks ws ids"; cases "fst (seller_create_stocks ws ids)")
       (auto intro: that)
qed

lemma sku_to_market: "map sku (map (to_market wh d) xs) = map stock_offer_id xs"
  by (simp add: to_market_def market_record_def comp_def)

subsection \<open>The stock list\<close>

lemma seller_create_stocks_Inr:
  assumes "seller_create_stocks ws ids = (Inr out, ids')"
  obtains ms where "seller_match ws [] ids = (Inr ms, ids')"
    "out = ms @ map (\<lambda>offer_id. \<lparr>stock_offer_id = offer_id, stock = 0\<rparr>) ids'"
  using assms by (auto simp: seller_create_stocks_def split: prod.splits sum.splits)

lemma seller_create_stocks_mset:
  assumes "seller_create_stocks ws ids = (Inr out, ids')"
  shows "mset (map stock_offer_id out) = mset ids"
proof -
  from assms obtain ms where m: "seller_match ws [] ids = (Inr ms, ids')"
    and out: "out = ms @ map (\<lambda>offer_id. \<lparr>stock_offer_id = offer_id, stock = 0\<rparr>) ids'"
    by (rule seller_create_stocks_Inr)
  have "map stock_offer_id (map (\<lambda>offer_id. \<lparr>stock_offer_id = offer_id, stock = 0\<rparr>) ids') = ids'"
    by (simp add: comp_def)
  with seller_match_mset [OF m] out show ?thesis by simp
qed

lemma seller_create_stocks_quantity:
  assumes "distinct ids" "seller_create_stocks ws ids = (Inr out, ids')" "r \<in> set out"
  shows "case find (\<lambda>w. row_code w = stock_offer_id r) ws of
           None \<Rightarrow> stock r = 0
         | Some w \<Rightarrow> resolve_stock w = Inr (stock r)"
proof -
  from assms(2) obtain ms where m: "seller_match ws [] ids = (Inr ms, ids')"
    and out: "out = ms @ map (\<lambda>offer_id. \<lparr>stock_offer_id = offer_id, stock = 0\<rparr>) ids'"
    by (rule seller_create_stocks_Inr)
  show ?thesis
  proof (cases "r \<in> set ms")
    case True
    from seller_match_quantity [OF assms(1) m True] show ?thesis by auto
  next
    case False
    with assms(3) out obtain x where x: "x \<in> set ids'" "r = \<lparr>stock_offer_id = x, stock = 0\<rparr>"
      by auto
    from seller_match_left [OF assms(1) m] x(1) have "x \<notin> row_code ` set ws" by auto
    then have "find (\<lambda>w. row_code w = x) ws = None"
      by (auto simp: find_None_iff)
    with x(2) show ?thesis by simp
  qed
qed

lemma seller_match_total:
  "\<forall>w\<in>set L. \<exists>q. resolve_stock w = Inr q \<Longrightarrow>
   \<exists>out R'. seller_match L acc R = (Inr out, R')"
proof (induction L arbitrary: acc R)
  case Nil
  show ?case by simp
next
  case (Cons w L)
  from Cons.prems obtain q where q: "resolve_stock w = Inr q" by auto
  from Cons.prems have rest: "\<forall>w\<in>set L. \<exists>q. resolve_stock w = Inr q" by simp
  show ?case
  proof (cases "row_code w \<in> set R")
    case True
    with q Cons.IH [OF rest] show ?thesis by simp
  next
    case False
    with Cons.IH [OF rest] show ?thesis by simp
  qed
qed

lemma seller_create_stocks_total:
  assumes "\<forall>w\<in>set L. \<exists>q. resolve_stock w = Inr q"
  shows "\<exists>out R'. seller_create_stocks L R = (Inr out, R')"
proof -
  from seller_match_total [OF assms] obtain ms R' where "seller_match L [] R = (Inr ms, R')"
    by blast
  then show ?thesis by (simp add: seller_create_stocks_def)
qed

lemma market_create_stocks_total:
  assumes "\<forall>w\<in>set L. \<exists>q. resolve_stock w = Inr q"
  shows "\<exists>out R'. market_create_stocks d L R wh = (Inr out, R')"
proof -
  from seller_create_stocks_total [OF assms] obtain outs R' where
    "seller_create_stocks L R = (Inr outs, R')" by blast
  then show ?thesis by (simp add: market_create_stocks_seller)
qed

lemma seller_match_reached:
  assumes pre: "seller_match pre [] R = (Inr acc, ids)"
    and hit: "row_code w \<in> set ids"
    and ret: "seller_create_stocks (pre @ w # post) R = (Inr out, R')"
  shows "\<exists>q. resolve_stock w = Inr q \<and> length acc < length out \<and>
             out ! length acc = \<lparr>stock_offer_id = row_code w, stock = q\<rparr>"
proof -
  from ret obtain ms where ms: "seller_match (pre @ w # post) [] R = (Inr ms, R')"
    and out: "out = ms @ map (\<lambda>offer_id. \<lparr>stock_offer_id = offer_id, stock = 0\<rparr>) R'"
    by (rule seller_create_stocks_Inr)
  from ms pre have step: "seller_match (w # post) acc ids = (Inr ms, R')"
    by (simp add: seller_match_append)
  show ?thesis
  proof (cases "resolve_stock w")
    case (Inl e)
    with step hit show ?thesis by simp
  next
    case (Inr q)
    let ?r = "\<lparr>stock_offer_id = row_code w, stock = q\<rparr>"
    from step hit Inr
    have "seller_match post (acc @ [?r]) (remove1 (row_code w) ids) = (Inr ms, R')"
      by simp
    then obtain ms' where "ms = (acc @ [?r]) @ ms'"
      by (subst (asm) seller_match_acc) (auto split: prod.splits sum.splits)
    with out have "out = acc @ ?r # (ms' @ map (\<lambda>offer_id. \<lparr>stock_offer_id = offer_id, stock = 0\<rparr>) R')"
      by simp
    then have "length acc < length out" "out ! length acc = ?r"
      by (simp_all add: nth_append)
    with Inr show ?thesis by blast
  qed
qed

text \<open>
  C1, as amended: when the remote offer ids hold no id twice, the stock list that
  create_stocks returns has exactly one record per remote id (no id twice, no id that
  is not remote); the record of an id that is the string key of some row carries the
  quantity resolved from the first such row, and the record of every other id carries
  quantity 0. Rows whose key is not a remote id leave no record. The list is returned
  whenever the quantity of every row can be resolved.
\<close>

theorem C1_create_stocks_one_record_per_id:
  assumes "distinct R"
  shows "(seller_create_stocks L R = (Inr out, R') \<longrightarrow>
            distinct (map stock_offer_id out) \<and> set (map stock_offer_id out) = set R \<and>
            (\<forall>r\<in>set out.
               case find (\<lambda>w. row_code w = stock_offer_id r) L of
                 None \<Rightarrow> stock r = 0
               | Some w \<Rightarrow> resolve_stock w = Inr (stock r)))
       \<and> (market_create_stocks date L R warehouse_id = (Inr out_m, R_m) \<longrightarrow>
            distinct (map sku out_m) \<and> set (map sku out_m) = set R \<and>
            (\<forall>r\<in>set out_m. \<exists>q.
               warehouseId r = warehouse_id \<and>
               items r = [\<lparr>item_count = q, item_type = py ''FIT'', updatedAt = date\<rparr>] \<and>
               (case find (\<lambda>w. row_code w = sku r) L of
                  None \<Rightarrow> q = 0
                | Some w \<Rightarrow> resolve_stock w = Inr q)))
       \<and> ((\<forall>w\<in>set L. \<exists>q. resolve_stock w = Inr q) \<longrightarrow>
            (\<exists>out R'. seller_create_stocks L R = (Inr out, R')) \<and>
            (\<exists>out R'. market_create_stocks date L R warehouse_id = (Inr out, R')))"
proof (intro conjI impI)
  assume s: "seller_create_stocks L R = (Inr out, R')"
  from seller_create_stocks_mset [OF s] assms
  show "distinct (map stock_offer_id out)"
    by (metis mset_eq_imp_distinct_iff)
  from seller_create_stocks_mset [OF s] show "set (map stock_offer_id out) = set R"
    by (rule mset_eq_setD)
  show "\<forall>r\<in>set out.
          case find (\<lambda>w. row_code w = stock_offer_id r) L of
            None \<Rightarrow> stock r = 0
          | Some w \<Rightarrow> resolve_stock w = Inr (stock r)"
    using seller_create_stocks_quantity [OF assms s] by blast
next
  assume m: "market_create_stocks date L R warehouse_id = (Inr out_m, R_m)"
  then obtain outs where s: "seller_create_stocks L R = (Inr outs, R_m)"
    and out: "out_m = map (to_market warehouse_id date) outs"
    by (rule market_create_stocks_Inr)
  have ids: "map sku out_m = map stock_offer_id outs"
    unfolding out by (rule sku_to_market)
  from seller_create_stocks_mset [OF s] assms ids
  show "distinct (map sku out_m)"
    by (metis mset_eq_imp_distinct_iff)
  from seller_create_stocks_mset [OF s] ids show "set (map sku out_m) = set R"
    by (metis mset_eq_setD)
  show "\<forall>r\<in>set out_m. \<exists>q.
          warehouseId r = warehouse_id \<and>
          items r = [\<lparr>item_count = q, item_type = py ''FIT'', updatedAt = date\<rparr>] \<and>
          (case find (\<lambda>w. row_code w = sku r) L of
             None \<Rightarrow> q = 0
           | Some w \<Rightarrow> resolve_stock w = Inr q)"
  proof
    fix r assume "r \<in> set out_m"
    with out obtain r0 where r0: "r0 \<in> set outs" "r = to_market warehouse_id date r0" by auto
    from seller_create_stocks_quantity [OF assms s r0(1)] r0(2)
    show "\<exists>q. warehouseId r = warehouse_id \<and>
          items r = [\<lparr>item_count = q, item_type = py ''FIT'', updatedAt = date\<rparr>] \<and>
          (case find (\<lambda>w. row_code w = sku r) L of
             None \<Rightarrow> q = 0
           | Some w \<Rightarrow> resolve_stock w = Inr q)"
      by (intro exI [of _ "stock r0"]) (simp add: to_market_def market_record_def)
  qed
next
  assume t: "\<forall>w\<in>set L. \<exists>q. resolve_stock w = Inr q"
  then show "\<exists>out R'. seller_create_stocks L R = (Inr out, R')"
    by (rule seller_create_stocks_total)
  from t show "\<exists>out R'. market_create_stocks date L R warehouse_id = (Inr out, R')"
    by (rule market_create_stocks_total)
qed

theorem C1_create_stocks_witness:
  "distinct [py ''X'', py ''Y'', py ''Z''] \<and>
   seller_create_stocks [mk_row (PyStr (py ''X'')) (PyStr (py ''>10'')) PyNone] [py ''X'', py ''Y'', py ''Z'']
     = (Inr [\<lparr>stock_offer_id = py ''X'', stock = 100\<rparr>, \<lparr>stock_offer_id = py ''Y'', stock = 0\<rparr>,
             \<lparr>stock_offer_id = py ''Z'', stock = 0\<rparr>], [py ''Y'', py ''Z'']) \<and>
   market_create_stocks (py ''D'') [mk_row (PyStr (py ''X'')) (PyStr (py ''>10'')) PyNone] [py ''X'', py ''Y'', py ''Z''] (py ''W'')
     = (Inr [market_record (py ''W'') (py ''D'') (py ''X'') 100, market_record (py ''W'') (py ''D'') (py ''Y'') 0,
             market_record (py ''W'') (py ''D'') (py ''Z'') 0], [py ''Y'', py ''Z'']) \<and>
   set (map stock_offer_id [\<lparr>stock_offer_id = py ''X'', stock = 100\<rparr>, \<lparr>stock_offer_id = py ''Y'', stock = 0\<rparr>,
             \<lparr>stock_offer_id = py ''Z'', stock = 0\<rparr>]) = set [py ''X'', py ''Y'', py ''Z''] \<and>
   set (map sku [market_record (py ''W'') (py ''D'') (py ''X'') 100, market_record (py ''W'') (py ''D'') (py ''Y'') 0,
             market_record (py ''W'') (py ''D'') (py ''Z'') 0]) = set [py ''X'', py ''Y'', py ''Z'']"
proof -
  let ?L = "[mk_row (PyStr (py ''X'')) (PyStr (py ''>10'')) PyNone]"
  let ?R = "[py ''X'', py ''Y'', py ''Z'']"
  let ?out = "[\<lparr>stock_offer_id = py ''X'', stock = 100\<rparr>, \<lparr>stock_offer_id = py ''Y'', stock = 0\<rparr>,
             \<lparr>stock_offer_id = py ''Z'', stock = 0\<rparr>]"
  let ?outm = "[market_record (py ''W'') (py ''D'') (py ''X'') 100, market_record (py ''W'') (py ''D'') (py ''Y'') 0,
             market_record (py ''W'') (py ''D'') (py ''Z'') 0]"
  have d: "distinct ?R" by simp
  have s: "seller_create_stocks ?L ?R = (Inr ?out, [py ''Y'', py ''Z''])"
    by (simp add: seller_create_stocks_def resolve_stock_def py_str_def)
  have m: "market_create_stocks (py ''D'') ?L ?R (py ''W'') = (Inr ?outm, [py ''Y'', py ''Z''])"
    by (simp add: market_create_stocks_def resolve_stock_def py_str_def)
  from C1_create_stocks_one_record_per_id [OF d, of ?L ?out "[py ''Y'', py ''Z'']" "(py ''D'')" "(py ''W'')" ?outm "[py ''Y'', py ''Z'']"] s m
  have "set (map stock_offer_id ?out) = set ?R" "set (map sku ?outm) = set ?R"
    by blast+
  with d s m show ?thesis by blast
qed

text \<open>
  With a remote id listed twice, the id comes out twice: once with the quantity of the
  row, once with 0.
\<close>

theorem C1_create_stocks_duplicate_counterexample:
  "fst (seller_create_stocks [mk_row (PyStr (py ''A'')) (PyStr (py ''7'')) PyNone] [py ''A'', py ''A''])
     = Inr [\<lparr>stock_offer_id = py ''A'', stock = 7\<rparr>, \<lparr>stock_offer_id = py ''A'', stock = 0\<rparr>]"
  by (simp add: seller_create_stocks_def resolve_stock_def py_str_def py_int_def int_of_str_7 [simplified])

text \<open>
  C2: when the loop reaches a row whose string key is in the offer-id collection, the
  record it appends (the next one of the result) carries quantity 100 if the quantity
  indicator reads \<open>>10\<close>, 0 if it reads \<open>1\<close>, and otherwise the integer that \<open>int\<close>
  makes of the indicator: the number itself for an \<open>int\<close> cell, the integer that the
  text denotes for a \<open>str\<close> cell, and no record at all for \<open>None\<close>. A text of ASCII
  digits within the interpreter's limit is read as the number it writes, and the text
  that \<open>str\<close> makes of an integer is read back as that integer; \<open>7\<close> gives 7.
\<close>

theorem C2_quantity_rule:
  "(seller_match pre [] R = (Inr acc, ids) \<and> row_code w \<in> set ids \<and>
    seller_create_stocks (pre @ w # post) R = (Inr out, R') \<longrightarrow>
      (\<exists>q. length acc < length out \<and>
           out ! length acc = \<lparr>stock_offer_id = row_code w, stock = q\<rparr> \<and>
           (if py_str (dict_get w key_count) = py ''>10'' then q = 100
            else if py_str (dict_get w key_count) = py ''1'' then q = 0
            else py_int (dict_get w key_count) = Inr q \<and>
                 (case dict_get w key_count of
                    PyNone \<Rightarrow> False
                  | PyStr s \<Rightarrow> q = literal_value s
                  | PyInt i \<Rightarrow> q = i))))
   \<and> (market_match warehouse_id date pre [] R = (Inr acc_m, ids_m) \<and> row_code w \<in> set ids_m \<and>
      market_create_stocks date (pre @ w # post) R warehouse_id = (Inr out_m, R_m) \<longrightarrow>
      (\<exists>q. length acc_m < length out_m \<and>
           out_m ! length acc_m = market_record warehouse_id date (row_code w) q \<and>
           (if py_str (dict_get w key_count) = py ''>10'' then q = 100
            else if py_str (dict_get w key_count) = py ''1'' then q = 0
            else py_int (dict_get w key_count) = Inr q \<and>
                 (case dict_get w key_count of
                    PyNone \<Rightarrow> False
                  | PyStr s \<Rightarrow> q = literal_value s
                  | PyInt i \<Rightarrow> q = i))))
   \<and> py_int (PyStr (py ''7'')) = Inr 7
   \<and> (digits \<noteq> [] \<and> (\<forall>c\<in>set digits. is_digit c) \<and> length digits \<le> int_max_str_digits \<longrightarrow>
        py_int (PyStr digits) = Inr (int (positional (map digit_val digits))))
   \<and> (\<bar>i\<bar> < 10 ^ int_max_str_digits \<longrightarrow> py_int (PyStr (py_str (PyInt i))) = Inr i)"
proof (intro conjI impI)
  assume a: "seller_match pre [] R = (Inr acc, ids) \<and> row_code w \<in> set ids \<and>
    seller_create_stocks (pre @ w # post) R = (Inr out, R')"
  then obtain q where "resolve_stock w = Inr q" "length acc < length out"
    "out ! length acc = \<lparr>stock_offer_id = row_code w, stock = q\<rparr>"
    using seller_match_reached by blast
  with resolve_stock_rule [of w q]
  show "\<exists>q. length acc < length out \<and>
           out ! length acc = \<lparr>stock_offer_id = row_code w, stock = q\<rparr> \<and>
           (if py_str (dict_get w key_count) = py ''>10'' then q = 100
            else if py_str (dict_get w key_count) = py ''1'' then q = 0
            else py_int (dict_get w key_count) = Inr q \<and>
                 (case dict_get w key_count of
                    PyNone \<Rightarrow> False
                  | PyStr s \<Rightarrow> q = literal_value s
                  | PyInt i \<Rightarrow> q = i))"
    by blast
next
  assume a: "market_match warehouse_id date pre [] R = (Inr acc_m, ids_m) \<and> row_code w \<in> set ids_m \<and>
      market_create_stocks date (pre @ w # post) R warehouse_id = (Inr out_m, R_m)"
  then obtain accs where accs: "seller_match pre [] R = (Inr accs, ids_m)"
    "acc_m = map (to_market warehouse_id date) accs"
    using market_match_Inr by blast
  from a obtain outs where outs: "seller_create_stocks (pre @ w # post) R = (Inr outs, R_m)"
    "out_m = map (to_market warehouse_id date) outs"
    using market_create_stocks_Inr by blast
  from a accs(1) outs(1) obtain q where q: "resolve_stock w = Inr q" "length accs < length outs"
    "outs ! length accs = \<lparr>stock_offer_id = row_code w, stock = q\<rparr>"
    using seller_match_reached by blast
  have "length acc_m < length out_m" using q(2) accs(2) outs(2) by simp
  moreover have "out_m ! length acc_m = market_record warehouse_id date (row_code w) q"
    using q(2,3) accs(2) outs(2) by (simp add: to_market_def)
  ultimately show "\<exists>q. length acc_m < length out_m \<and>
           out_m ! length acc_m = market_record warehouse_id date (row_code w) q \<and>
           (if py_str (dict_get w key_count) = py ''>10'' then q = 100
            else if py_str (dict_get w key_count) = py ''1'' then q = 0
            else py_int (dict_get w key_count) = Inr q \<and>
                 (case dict_get w key_count of
                    PyNone \<Rightarrow> False
                  | PyStr s \<Rightarrow> q = literal_value s
                  | PyInt i \<Rightarrow> q = i))"
    using resolve_stock_rule [OF q(1)] by blast
next
  show "py_int (PyStr (py ''7'')) = Inr 7"
    by (simp add: py_int_def int_of_str_7 [simplified])
next
  assume "digits \<noteq> [] \<and> (\<forall>c\<in>set digits. is_digit c) \<and> length digits \<le> int_max_str_digits"
  then show "py_int (PyStr digits) = Inr (int (positional (map digit_val digits)))"
    by (simp add: py_int_def int_of_str_digits)
next
  assume "\<bar>i\<bar> < 10 ^ int_max_str_digits"
  then show "py_int (PyStr (py_str (PyInt i))) = Inr i"
    by (simp add: py_int_def int_of_str_str_int)
qed

theorem C2_quantity_rule_witness:
  "seller_create_stocks [mk_row (PyStr (py ''Q'')) (PyStr (py ''1'')) PyNone, mk_row (PyStr (py ''X'')) (PyStr (py ''7'')) PyNone]
       [py ''X'', py ''Q'']
     = (Inr [\<lparr>stock_offer_id = py ''Q'', stock = 0\<rparr>, \<lparr>stock_offer_id = py ''X'', stock = 7\<rparr>], [])
   \<and> market_create_stocks (py ''D'')
       [mk_row (PyStr (py ''Q'')) (PyStr (py ''1'')) PyNone, mk_row (PyStr (py ''X'')) (PyStr (py ''7'')) PyNone]
       [py ''X'', py ''Q''] (py ''W'')
     = (Inr [market_record (py ''W'') (py ''D'') (py ''Q'') 0, market_record (py ''W'') (py ''D'') (py ''X'') 7], [])
   \<and> (\<exists>q. [\<lparr>stock_offer_id = py ''Q'', stock = 0\<rparr>, \<lparr>stock_offer_id = py ''X'', stock = 7\<rparr>] ! 1
            = \<lparr>stock_offer_id = py ''X'', stock = q\<rparr> \<and> py_int (PyStr (py ''7'')) = Inr q)
   \<and> (\<exists>q. [market_record (py ''W'') (py ''D'') (py ''Q'') 0, market_record (py ''W'') (py ''D'') (py ''X'') 7] ! 1
            = market_record (py ''W'') (py ''D'') (py ''X'') q \<and> py_int (PyStr (py ''7'')) = Inr q)"
proof -
  let ?pre = "[mk_row (PyStr (py ''Q'')) (PyStr (py ''1'')) PyNone]"
  let ?w = "mk_row (PyStr (py ''X'')) (PyStr (py ''7'')) PyNone"
  let ?R = "[py ''X'', py ''Q'']"
  let ?out = "[\<lparr>stock_offer_id = py ''Q'', stock = 0\<rparr>, \<lparr>stock_offer_id = py ''X'', stock = 7\<rparr>]"
  let ?outm = "[market_record (py ''W'') (py ''D'') (py ''Q'') 0, market_record (py ''W'') (py ''D'') (py ''X'') 7]"
  have p: "seller_match ?pre [] ?R = (Inr [\<lparr>stock_offer_id = py ''Q'', stock = 0\<rparr>], [py ''X''])"
    by (simp add: resolve_stock_def py_str_def)
  have pm: "market_match (py ''W'') (py ''D'') ?pre [] ?R = (Inr [market_record (py ''W'') (py ''D'') (py ''Q'') 0], [py ''X''])"
    by (simp add: resolve_stock_def py_str_def)
  have h: "row_code ?w \<in> set [py ''X'']"
    by (simp add: py_str_def)
  have s: "seller_create_stocks (?pre @ ?w # []) ?R = (Inr ?out, [])"
    by (simp add: seller_create_stocks_def resolve_stock_def py_str_def py_int_def int_of_str_7 [simplified])
  have m: "market_create_stocks (py ''D'') (?pre @ ?w # []) ?R (py ''W'') = (Inr ?outm, [])"
    by (simp add: market_create_stocks_def resolve_stock_def py_str_def py_int_def int_of_str_7 [simplified])
  have c: "py_str (dict_get ?w key_count) = (py ''7'')" "row_code ?w = (py ''X'')"
    by (simp_all add: py_str_def)
  note inst = C2_quantity_rule [of ?pre ?R "[\<lparr>stock_offer_id = py ''Q'', stock = 0\<rparr>]" "[py ''X'']" ?w "[]"
      ?out "[]" "(py ''W'')" "(py ''D'')" "[market_record (py ''W'') (py ''D'') (py ''Q'') 0]" "[py ''X'']" ?outm "[]"]
  from inst p h s c
  have "\<exists>q. ?out ! 1 = \<lparr>stock_offer_id = py ''X'', stock = q\<rparr> \<and> py_int (PyStr (py ''7'')) = Inr q"
    by simp
  moreover from inst pm h m c
  have "\<exists>q. ?outm ! 1 = market_record (py ''W'') (py ''D'') (py ''X'') q \<and> py_int (PyStr (py ''7'')) = Inr q"
    by simp
  ultimately show ?thesis using s m by simp
qed

text \<open>
  C8, as amended: when the offer-id collection holds no id twice and create_stocks
  returns, the collection holds exactly the ids of the input collection that are the
  string key of no row, in their input order.
\<close>

theorem C8_offer_ids_left_unmatched:
  assumes "distinct R"
  shows "(seller_create_stocks L R = (Inr out, R') \<longrightarrow>
            R' = filter (\<lambda>x. x \<notin> row_code ` set L) R)
       \<and> (market_create_stocks date L R warehouse_id = (Inr out_m, R_m) \<longrightarrow>
            R_m = filter (\<lambda>x. x \<notin> row_code ` set L) R)"
proof (intro conjI impI)
  assume "seller_create_stocks L R = (Inr out, R')"
  then obtain ms where "seller_match L [] R = (Inr ms, R')"
    by (rule seller_create_stocks_Inr)
  with assms show "R' = filter (\<lambda>x. x \<notin> row_code ` set L) R"
    by (rule seller_match_left)
next
  assume "market_create_stocks date L R warehouse_id = (Inr out_m, R_m)"
  then obtain outs where "seller_create_stocks L R = (Inr outs, R_m)"
    by (rule market_create_stocks_Inr)
  then obtain ms where "seller_match L [] R = (Inr ms, R_m)"
    by (rule seller_create_stocks_Inr)
  with assms show "R_m = filter (\<lambda>x. x \<notin> row_code ` set L) R"
    by (rule seller_match_left)
qed

theorem C8_offer_ids_witness:
  "distinct [py ''X'', py ''Y'', py ''Z''] \<and>
   seller_create_stocks [mk_row (PyStr (py ''Y'')) (PyStr (py ''1'')) PyNone, mk_row (PyStr (py ''Q'')) (PyStr (py ''3'')) PyNone]
       [py ''X'', py ''Y'', py ''Z'']
     = (Inr [\<lparr>stock_offer_id = py ''Y'', stock = 0\<rparr>, \<lparr>stock_offer_id = py ''X'', stock = 0\<rparr>,
             \<lparr>stock_offer_id = py ''Z'', stock = 0\<rparr>], [py ''X'', py ''Z'']) \<and>
   market_create_stocks (py ''D'') [mk_row (PyStr (py ''Y'')) (PyStr (py ''1'')) PyNone, mk_row (PyStr (py ''Q'')) (PyStr (py ''3'')) PyNone]
       [py ''X'', py ''Y'', py ''Z''] (py ''W'')
     = (Inr [market_record (py ''W'') (py ''D'') (py ''Y'') 0, market_record (py ''W'') (py ''D'') (py ''X'') 0,
             market_record (py ''W'') (py ''D'') (py ''Z'') 0], [py ''X'', py ''Z'']) \<and>
   [py ''X'', py ''Z''] = filter (\<lambda>x. x \<notin> row_code `
       set [mk_row (PyStr (py ''Y'')) (PyStr (py ''1'')) PyNone, mk_row (PyStr (py ''Q'')) (PyStr (py ''3'')) PyNone])
       [py ''X'', py ''Y'', py ''Z'']"
proof -
  let ?L = "[mk_row (PyStr (py ''Y'')) (PyStr (py ''1'')) PyNone, mk_row (PyStr (py ''Q'')) (PyStr (py ''3'')) PyNone]"
  let ?R = "[py ''X'', py ''Y'', py ''Z'']"
  let ?out = "[\<lparr>stock_offer_id = py ''Y'', stock = 0\<rparr>, \<lparr>stock_offer_id = py ''X'', stock = 0\<rparr>,
             \<lparr>stock_offer_id = py ''Z'', stock = 0\<rparr>]"
  let ?outm = "[market_record (py ''W'') (py ''D'') (py ''Y'') 0, market_record (py ''W'') (py ''D'') (py ''X'') 0,
             market_record (py ''W'') (py ''D'') (py ''Z'') 0]"
  have d: "distinct ?R" by simp
  have s: "seller_create_stocks ?L ?R = (Inr ?out, [py ''X'', py ''Z''])"
    by (simp add: seller_create_stocks_def resolve_stock_def py_str_def)
  have m: "market_create_stocks (py ''D'') ?L ?R (py ''W'') = (Inr ?outm, [py ''X'', py ''Z''])"
    by (simp add: market_create_stocks_def resolve_stock_def py_str_def)
  from C8_offer_ids_left_unmatched [OF d, of ?L ?out "[py ''X'', py ''Z'']" "(py ''D'')" "(py ''W'')" ?outm "[py ''X'', py ''Z'']"] s
  have "[py ''X'', py ''Z''] = filter (\<lambda>x. x \<notin> row_code ` set ?L) ?R"
    by blast
  with d s m show ?thesis by blast
qed

text \<open>
  With a remote id listed twice and one row of that key, the collection still holds
  the id when create_stocks returns.
\<close>

theorem C8_offer_ids_duplicate_counterexample:
  "snd (seller_create_stocks [mk_row (PyStr (py ''A'')) (PyStr (py ''7'')) PyNone] [py ''A'', py ''A'']) = [py ''A'']
   \<and> row_code (mk_row (PyStr (py ''A'')) (PyStr (py ''7'')) PyNone) = (py ''A'')"
  by (simp add: seller_create_stocks_def resolve_stock_def py_str_def py_int_def int_of_str_7 [simplified])

section \<open>Properties of the price reconciliation\<close>

lemma seller_prices_loop_rel:
  "seller_prices_loop L R acc = Inr ps \<Longrightarrow>
   \<exists>ms. ps = acc @ ms \<and> list_all2 seller_price_of (filter (\<lambda>w. row_code w \<in> set R) L) ms"
proof (induction L arbitrary: acc)
  case Nil
  then show ?case by simp
next
  case (Cons w L)
  show ?case
  proof (cases "row_code w \<in> set R")
    case False
    with Cons show ?thesis by simp
  next
    case True
    with Cons.prems obtain p where p: "price_conversion (dict_get w key_price) = Inr p"
      by (cases "price_conversion (dict_get w key_price)") auto
    let ?r = "\<lparr>auto_action_enabled = py ''UNKNOWN'', currency_code = py ''RUB'',
               price_offer_id = row_code w, old_price = py ''0'', price = p\<rparr>"
    from Cons.prems True p have "seller_prices_loop L R (acc @ [?r]) = Inr ps" by simp
    from Cons.IH [OF this] obtain ms where
      ms: "ps = (acc @ [?r]) @ ms" "list_all2 seller_price_of (filter (\<lambda>w. row_code w \<in> set R) L) ms"
      by blast
    have "seller_price_of w ?r" using p by (simp add: seller_price_of_def)
    with ms True have "ps = acc @ (?r # ms) \<and>
        list_all2 seller_price_of (filter (\<lambda>w. row_code w \<in> set R) (w # L)) (?r # ms)"
      by simp
    then show ?thesis by blast
  qed
qed

lemma market_prices_loop_rel:
  "market_prices_loop L R acc = Inr ps \<Longrightarrow>
   \<exists>ms. ps = acc @ ms \<and> list_all2 market_price_of (filter (\<lambda>w. row_code w \<in> set R) L) ms"
proof (induction L arbitrary: acc)
  case Nil
  then show ?case by simp
next
  case (Cons w L)
  show ?case
  proof (cases "row_code w \<in> set R")
    case False
    with Cons show ?thesis by simp
  next
    case True
    with Cons.prems obtain p where p: "price_conversion (dict_get w key_price) = Inr p"
      by (cases "price_conversion (dict_get w key_price)") auto
    with Cons.prems True obtain v where v: "int_of_str p = Inr v"
      by (cases "int_of_str p") auto
    let ?r = "\<lparr>price_id = row_code w, price_body = \<lparr>price_value = v, currencyId = py ''RUR''\<rparr>\<rparr>"
    from Cons.prems True p v have "market_prices_loop L R (acc @ [?r]) = Inr ps" by simp
    from Cons.IH [OF this] obtain ms where
      ms: "ps = (acc @ [?r]) @ ms" "list_all2 market_price_of (filter (\<lambda>w. row_code w \<in> set R) L) ms"
      by blast
    have "market_price_of w ?r" using p v by (simp add: market_price_of_def)
    with ms True have "ps = acc @ (?r # ms) \<and>
        list_all2 market_price_of (filter (\<lambda>w. row_code w \<in> set R) (w # L)) (?r # ms)"
      by simp
    then show ?thesis by blast
  qed
qed

lemma seller_prices_loop_total:
  "\<forall>w\<in>set L. row_code w \<in> set R \<longrightarrow> (\<exists>s. dict_get w key_price = PyStr s) \<Longrightarrow>
   \<exists>ps. seller_prices_loop L R acc = Inr ps"
proof (induction L arbitrary: acc)
  case Nil
  show ?case by simp
next
  case (Cons w L)
  show ?case
  proof (cases "row_code w \<in> set R")
    case False
    with Cons show ?thesis by simp
  next
    case True
    with Cons.prems obtain s where "dict_get w key_price = PyStr s" by auto
    then have "price_conversion (dict_get w key_price) = Inr (digits_before_point s)"
      by (simp add: price_conversion_str)
    with True Cons show ?thesis by simp
  qed
qed

lemma market_prices_loop_total:
  "\<forall>w\<in>set L. row_code w \<in> set R \<longrightarrow>
      (\<exists>s. dict_get w key_price = PyStr s \<and> digits_before_point s \<noteq> [] \<and>
           length (digits_before_point s) \<le> int_max_str_digits) \<Longrightarrow>
   \<exists>ps. market_prices_loop L R acc = Inr ps"
proof (induction L arbitrary: acc)
  case Nil
  show ?case by simp
next
  case (Cons w L)
  show ?case
  proof (cases "row_code w \<in> set R")
    case False
    with Cons show ?thesis by simp
  next
    case True
    with Cons.prems obtain s where s: "dict_get w key_price = PyStr s" "digits_before_point s \<noteq> []"
      "length (digits_before_point s) \<le> int_max_str_digits"
      by auto
    then have p: "price_conversion (dict_get w key_price) = Inr (digits_before_point s)"
      by (simp add: price_conversion_str)
    have "\<forall>c\<in>set (digits_before_point s). is_digit c"
      by (simp add: digits_before_point_def)
    from int_of_str_digits [OF s(2) this s(3)] obtain v where "int_of_str (digits_before_point s) = Inr v"
      by blast
    with True p Cons show ?thesis by simp
  qed
qed

text \<open>
  C7: create_prices returns one price record, carrying the normalized price, for each
  row whose code is in the remote ids, in the order of the rows, and nothing else.
\<close>

theorem C7_create_prices_matched_rows_only:
  "(seller_create_prices L R = Inr ps \<longrightarrow>
      list_all2 seller_price_of (filter (\<lambda>w. row_code w \<in> set R) L) ps)
   \<and> (market_create_prices L R = Inr ps_m \<longrightarrow>
      list_all2 market_price_of (filter (\<lambda>w. row_code w \<in> set R) L) ps_m)
   \<and> ((\<forall>w\<in>set L. row_code w \<in> set R \<longrightarrow>
          (\<exists>s. dict_get w key_price = PyStr s \<and> digits_before_point s \<noteq> [])) \<longrightarrow>
        (\<exists>ps. seller_create_prices L R = Inr ps) \<and>
        ((\<forall>w\<in>set L. \<forall>s. dict_get w key_price = PyStr s \<longrightarrow>
             length (digits_before_point s) \<le> int_max_str_digits) \<longrightarrow>
         (\<exists>ps. market_create_prices L R = Inr ps)))"
proof (intro conjI impI)
  assume "seller_create_prices L R = Inr ps"
  then show "list_all2 seller_price_of (filter (\<lambda>w. row_code w \<in> set R) L) ps"
    using seller_prices_loop_rel [of L R "[]" ps] by (simp add: seller_create_prices_def)
next
  assume "market_create_prices L R = Inr ps_m"
  then show "list_all2 market_price_of (filter (\<lambda>w. row_code w \<in> set R) L) ps_m"
    using market_prices_loop_rel [of L R "[]" ps_m] by (simp add: market_create_prices_def)
next
  assume a: "\<forall>w\<in>set L. row_code w \<in> set R \<longrightarrow>
          (\<exists>s. dict_get w key_price = PyStr s \<and> digits_before_point s \<noteq> [])"
  then have "\<forall>w\<in>set L. row_code w \<in> set R \<longrightarrow> (\<exists>s. dict_get w key_price = PyStr s)"
    by blast
  then show "\<exists>ps. seller_create_prices L R = Inr ps"
    unfolding seller_create_prices_def by (rule seller_prices_loop_total)
next
  assume a: "\<forall>w\<in>set L. row_code w \<in> set R \<longrightarrow>
          (\<exists>s. dict_get w key_price = PyStr s \<and> digits_before_point s \<noteq> [])"
    and b: "\<forall>w\<in>set L. \<forall>s. dict_get w key_price = PyStr s \<longrightarrow>
             length (digits_before_point s) \<le> int_max_str_digits"
  from a b have "\<forall>w\<in>set L. row_code w \<in> set R \<longrightarrow>
      (\<exists>s. dict_get w key_price = PyStr s \<and> digits_before_point s \<noteq> [] \<and>
           length (digits_before_point s) \<le> int_max_str_digits)"
    by blast
  then show "\<exists>ps. market_create_prices L R = Inr ps"
    unfolding market_create_prices_def by (rule market_prices_loop_total)
qed

theorem C7_create_prices_witness:
  "seller_create_prices [mk_row (PyStr (py ''A'')) PyNone (PyStr (py ''100.00'')),
                         mk_row (PyStr (py ''B'')) PyNone (PyStr (py ''200.00''))] [py ''A'']
     = Inr [\<lparr>auto_action_enabled = py ''UNKNOWN'', currency_code = py ''RUB'',
             price_offer_id = py ''A'', old_price = py ''0'', price = py ''100''\<rparr>]
   \<and> market_create_prices [mk_row (PyStr (py ''A'')) PyNone (PyStr (py ''100.00'')),
                         mk_row (PyStr (py ''B'')) PyNone (PyStr (py ''200.00''))] [py ''A'']
     = Inr [\<lparr>price_id = py ''A'', price_body = \<lparr>price_value = 100, currencyId = py ''RUR''\<rparr>\<rparr>]
   \<and> list_all2 seller_price_of [mk_row (PyStr (py ''A'')) PyNone (PyStr (py ''100.00''))]
        [\<lparr>auto_action_enabled = py ''UNKNOWN'', currency_code = py ''RUB'',
             price_offer_id = py ''A'', old_price = py ''0'', price = py ''100''\<rparr>]
   \<and> list_all2 market_price_of [mk_row (PyStr (py ''A'')) PyNone (PyStr (py ''100.00''))]
        [\<lparr>price_id = py ''A'', price_body = \<lparr>price_value = 100, currencyId = py ''RUR''\<rparr>\<rparr>]"
proof -
  let ?L = "[mk_row (PyStr (py ''A'')) PyNone (PyStr (py ''100.00'')),
             mk_row (PyStr (py ''B'')) PyNone (PyStr (py ''200.00''))]"
  let ?ps = "[\<lparr>auto_action_enabled = py ''UNKNOWN'', currency_code = py ''RUB'',
             price_offer_id = py ''A'', old_price = py ''0'', price = py ''100''\<rparr>]"
  let ?pm = "[\<lparr>price_id = py ''A'', price_body = \<lparr>price_value = 100, currencyId = py ''RUR''\<rparr>\<rparr>]"
  have s: "seller_create_prices ?L [py ''A''] = Inr ?ps"
    by (simp add: seller_create_prices_def price_conversion_str digits_before_point_def
          is_digit_def py_str_def)
  have m: "market_create_prices ?L [py ''A''] = Inr ?pm"
    by (simp add: market_create_prices_def price_conversion_str digits_before_point_def
          is_digit_def py_str_def int_of_str_100 [simplified])
  have f: "filter (\<lambda>w. row_code w \<in> set [py ''A'']) ?L = [mk_row (PyStr (py ''A'')) PyNone (PyStr (py ''100.00''))]"
    by (simp add: py_str_def)
  have h: "\<forall>w\<in>set ?L. row_code w \<in> set [py ''A''] \<longrightarrow>
          (\<exists>s. dict_get w key_price = PyStr s \<and> digits_before_point s \<noteq> [])"
    by (simp add: py_str_def digits_before_point_def is_digit_def)
  from C7_create_prices_matched_rows_only [of ?L "[py ''A'']" ?ps ?pm] s m h
  have "list_all2 seller_price_of (filter (\<lambda>w. row_code w \<in> set [py ''A'']) ?L) ?ps"
       "list_all2 market_price_of (filter (\<lambda>w. row_code w \<in> set [py ''A'']) ?L) ?pm"
    by blast+
  with f s m show ?thesis by simp
qed

section \<open>Properties of the remote offer lister\<close>

lemma ozon_listing_pages:
  "ozon_pages srv k tok (length acc) ps \<Longrightarrow>
   ozon_listing srv k tok acc = Some (Inr (acc @ concat (map page_items ps)))"
proof (induction ps arbitrary: k tok acc)
  case Nil
  then show ?case by simp
next
  case (Cons p ps)
  show ?case
  proof (cases ps)
    case Nil
    with Cons.prems show ?thesis
      by (subst ozon_listing.simps) simp
  next
    case (Cons q qs)
    with Cons.prems have p: "srv k tok = Inr p"
      "page_total p \<noteq> int (length acc + length (page_items p))"
      and rest: "ozon_pages srv (Suc k) (page_last_id p) (length (acc @ page_items p)) ps"
      by simp_all
    from Cons.IH [OF rest] p show ?thesis
      by (subst ozon_listing.simps) simp
  qed
qed

lemma ozon_listing_returns:
  "ozon_listing srv k tok acc = Some r \<Longrightarrow> r = Inr out \<Longrightarrow>
   \<exists>ps. ozon_pages srv k tok (length acc) ps \<and> out = acc @ concat (map page_items ps)"
proof (induction arbitrary: out rule: ozon_listing.raw_induct [rotated 1, consumes 1])
  case (1 listing srv k tok acc r)
  from 1(2,3) obtain p where p: "srv k tok = Inr p"
    by (cases "srv k tok") auto
  show ?case
  proof (cases "page_total p = int (length (acc @ page_items p))")
    case True
    with 1(2,3) p have "out = acc @ page_items p" by simp
    moreover from True p have "ozon_pages srv k tok (length acc) [p]" by simp
    ultimately show ?thesis by (intro exI [of _ "[p]"]) simp
  next
    case False
    with 1(2) p have "listing srv (Suc k) (page_last_id p) (acc @ page_items p) = Some r"
      by simp
    from 1(1) [OF this 1(3)] obtain ps where
      ps: "ozon_pages srv (Suc k) (page_last_id p) (length (acc @ page_items p)) ps"
      "out = (acc @ page_items p) @ concat (map page_items ps)"
      by blast
    from ps(1) obtain q qs where "ps = q # qs" by (cases ps) auto
    with ps p False have "ozon_pages srv k tok (length acc) (p # ps)"
      "out = acc @ concat (map page_items (p # ps))"
      by simp_all
    then show ?thesis by blast
  qed
qed

lemma yandex_listing_pages:
  "yandex_pages srv k tok ps \<Longrightarrow>
   yandex_listing srv k tok acc = Some (Inr (acc @ concat (map offerMappingEntries ps)))"
proof (induction ps arbitrary: k tok acc)
  case Nil
  then show ?case by simp
next
  case (Cons p ps)
  show ?case
  proof (cases ps)
    case Nil
    with Cons.prems show ?thesis
      by (subst yandex_listing.simps) (auto simp: py_not_def)
  next
    case (Cons q qs)
    with Cons.prems have p: "srv k tok = Inr p" "\<not> py_not (nextPageToken p)"
      and rest: "yandex_pages srv (Suc k) (nextPageToken p) ps"
      by (auto simp: py_not_def split: option.splits)
    from Cons.IH [OF rest, of "acc @ offerMappingEntries p"] p show ?thesis
      by (subst yandex_listing.simps) simp
  qed
qed

lemma yandex_listing_returns:
  "yandex_listing srv k tok acc = Some r \<Longrightarrow> r = Inr out \<Longrightarrow>
   \<exists>ps. yandex_pages srv k tok ps \<and> out = acc @ concat (map offerMappingEntries ps)"
proof (induction arbitrary: out rule: yandex_listing.raw_induct [rotated 1, consumes 1])
  case (1 listing srv k tok acc r)
  from 1(2,3) obtain p where p: "srv k tok = Inr p"
    by (cases "srv k tok") auto
  show ?case
  proof (cases "py_not (nextPageToken p)")
    case True
    with 1(2,3) p have "out = acc @ offerMappingEntries p" by simp
    moreover from True p have "yandex_pages srv k tok [p]"
      by (auto simp: py_not_def split: option.splits)
    ultimately show ?thesis by (intro exI [of _ "[p]"]) simp
  next
    case False
    with 1(2) p
    have "listing srv (Suc k) (nextPageToken p) (acc @ offerMappingEntries p) = Some r"
      by simp
    from 1(1) [OF this 1(3)] obtain ps where
      ps: "yandex_pages srv (Suc k) (nextPageToken p) ps"
      "out = (acc @ offerMappingEntries p) @ concat (map offerMappingEntries ps)"
      by blast
    from ps(1) obtain q qs where "ps = q # qs" by (cases ps) auto
    moreover from False have "nextPageToken p \<noteq> None" "nextPageToken p \<noteq> Some []"
      by (auto simp: py_not_def split: option.splits)
    ultimately have "yandex_pages srv k tok (p # ps)"
      "out = acc @ concat (map offerMappingEntries (p # ps))"
      using ps p by simp_all
    then show ?thesis by blast
  qed
qed

text \<open>
  C9: when the marketplace answers with pages of which the last is the first to meet the
  stop condition (accumulated count equal to the reported total for Ozon; next page
  token absent or empty for Yandex), the listing returns, and it returns the
  identifiers of all those pages in the order received. A listing that returns
  normally has always received such pages.
\<close>

theorem C9_listing_loops:
  "(ozon_pages srv 0 [] 0 ps \<longrightarrow>
      seller_get_offer_ids srv = Some (Inr (map product_offer_id (concat (map page_items ps)))))
   \<and> (seller_get_offer_ids srv = Some (Inr ids) \<longrightarrow>
      (\<exists>ps. ozon_pages srv 0 [] 0 ps \<and> ids = map product_offer_id (concat (map page_items ps))))
   \<and> (yandex_pages ysrv 0 (Some []) qs \<longrightarrow>
      market_get_offer_ids ysrv = Some (Inr (map shopSku (concat (map offerMappingEntries qs)))))
   \<and> (market_get_offer_ids ysrv = Some (Inr yids) \<longrightarrow>
      (\<exists>qs. yandex_pages ysrv 0 (Some []) qs \<and> yids = map shopSku (concat (map offerMappingEntries qs))))"
proof (intro conjI impI)
  assume "ozon_pages srv 0 [] 0 ps"
  then have "ozon_listing srv 0 [] [] = Some (Inr ([] @ concat (map page_items ps)))"
    using ozon_listing_pages [of srv 0 "[]" "[]" ps] by simp
  then show "seller_get_offer_ids srv = Some (Inr (map product_offer_id (concat (map page_items ps))))"
    by (simp add: seller_get_offer_ids_def)
next
  assume "seller_get_offer_ids srv = Some (Inr ids)"
  then obtain out where out: "ozon_listing srv 0 [] [] = Some (Inr out)" "ids = map product_offer_id out"
    by (auto simp: seller_get_offer_ids_def split: option.splits sum.splits)
  from ozon_listing_returns [OF out(1) refl] out(2)
  show "\<exists>ps. ozon_pages srv 0 [] 0 ps \<and> ids = map product_offer_id (concat (map page_items ps))"
    by auto
next
  assume "yandex_pages ysrv 0 (Some []) qs"
  then have "yandex_listing ysrv 0 (Some []) [] = Some (Inr ([] @ concat (map offerMappingEntries qs)))"
    by (rule yandex_listing_pages)
  then show "market_get_offer_ids ysrv = Some (Inr (map shopSku (concat (map offerMappingEntries qs))))"
    by (simp add: market_get_offer_ids_def)
next
  assume "market_get_offer_ids ysrv = Some (Inr yids)"
  then obtain out where out: "yandex_listing ysrv 0 (Some []) [] = Some (Inr out)" "yids = map shopSku out"
    by (auto simp: market_get_offer_ids_def split: option.splits sum.splits)
  from yandex_listing_returns [OF out(1) refl] out(2)
  show "\<exists>qs. yandex_pages ysrv 0 (Some []) qs \<and> yids = map shopSku (concat (map offerMappingEntries qs))"
    by auto
qed

theorem C9_listing_loops_witness:
  "seller_get_offer_ids ozon_example = Some (Inr [py ''001'', py ''002'', py ''003''])
   \<and> market_get_offer_ids yandex_example = Some (Inr [py ''001'', py ''002'', py ''003''])
   \<and> (\<exists>ps. ozon_pages ozon_example 0 [] 0 ps \<and>
            [py ''001'', py ''002'', py ''003''] = map product_offer_id (concat (map page_items ps)))
   \<and> (\<exists>qs. yandex_pages yandex_example 0 (Some []) qs \<and>
            [py ''001'', py ''002'', py ''003''] = map shopSku (concat (map offerMappingEntries qs)))"
proof -
  let ?ps = "[\<lparr>page_items = [\<lparr>product_offer_id = py ''001''\<rparr>, \<lparr>product_offer_id = py ''002''\<rparr>],
               page_total = 3, page_last_id = py ''t1''\<rparr>,
              \<lparr>page_items = [\<lparr>product_offer_id = py ''003''\<rparr>], page_total = 3, page_last_id = []\<rparr>]"
  let ?qs = "[\<lparr>offerMappingEntries = [\<lparr>shopSku = py ''001''\<rparr>, \<lparr>shopSku = py ''002''\<rparr>],
               nextPageToken = Some (py ''t1'')\<rparr>,
              \<lparr>offerMappingEntries = [\<lparr>shopSku = py ''003''\<rparr>], nextPageToken = None\<rparr>]"
  have o: "ozon_pages ozon_example 0 [] 0 ?ps"
    by (simp add: ozon_example_def)
  have y: "yandex_pages yandex_example 0 (Some []) ?qs"
    by (simp add: yandex_example_def)
  note inst = C9_listing_loops [of ozon_example ?ps "[py ''001'', py ''002'', py ''003'']"
      yandex_example ?qs "[py ''001'', py ''002'', py ''003'']"]
  from inst o have so: "seller_get_offer_ids ozon_example = Some (Inr [py ''001'', py ''002'', py ''003''])"
    by simp
  from inst y have sy: "market_get_offer_ids yandex_example = Some (Inr [py ''001'', py ''002'', py ''003''])"
    by simp
  from inst so sy show ?thesis by blast
qed

section \<open>Properties of the stock upload\<close>

lemma submit_all_ok: "\<forall>k b. \<exists>j. upd k b = Inr j \<Longrightarrow> submit_all upd k batches = Inr ()"
proof (induction batches arbitrary: k)
  case Nil
  show ?case by simp
next
  case (Cons b batches)
  from Cons.prems obtain j where "upd k b = Inr j" by blast
  with Cons show ?case by simp
qed

lemma market_not_empty_records:
  "market_not_empty (map (to_market wh d) outs) =
     Inr (filter (\<lambda>s. item_count (hd (items s)) \<noteq> 0) (map (to_market wh d) outs))"
  by (induction outs) (simp_all add: to_market_def market_record_def index0_def)

lemma seller_upload_stocks_returns:
  assumes "seller_upload_stocks srv upd L = Some (Inr (not_empty, stocks))"
  shows "(\<exists>ids R'. seller_get_offer_ids srv = Some (Inr ids) \<and>
                    seller_create_stocks L ids = (Inr stocks, R')) \<and>
         not_empty = filter (\<lambda>s. stock s \<noteq> 0) stocks"
proof -
  from assms obtain ids where ids: "seller_get_offer_ids srv = Some (Inr ids)"
    by (auto simp: seller_upload_stocks_def split: option.splits sum.splits)
  with assms obtain st where st: "fst (seller_create_stocks L ids) = Inr st"
    by (auto simp: seller_upload_stocks_def split: sum.splits)
  with assms ids have "stocks = st" "not_empty = filter (\<lambda>s. stock s \<noteq> 0) st"
    by (auto simp: seller_upload_stocks_def split: sum.splits)
  moreover from st obtain R' where "seller_create_stocks L ids = (Inr st, R')"
    by (cases "seller_create_stocks L ids") auto
  ultimately show ?thesis using ids by blast
qed

lemma market_upload_stocks_returns:
  assumes "market_upload_stocks d srv upd L wh = Some (Inr (not_empty, stocks))"
  shows "(\<exists>ids R'. market_get_offer_ids srv = Some (Inr ids) \<and>
                    market_create_stocks d L ids wh = (Inr stocks, R')) \<and>
         (\<forall>s\<in>set stocks. \<exists>q. items s = [\<lparr>item_count = q, item_type = py ''FIT'', updatedAt = d\<rparr>]) \<and>
         not_empty = filter (\<lambda>s. item_count (hd (items s)) \<noteq> 0) stocks"
proof -
  from assms obtain ids where ids: "market_get_offer_ids srv = Some (Inr ids)"
    by (auto simp: market_upload_stocks_def split: option.splits sum.splits)
  with assms obtain st where st: "fst (market_create_stocks d L ids wh) = Inr st"
    by (auto simp: market_upload_stocks_def split: sum.splits)
  with assms ids have eq: "stocks = st" "market_not_empty st = Inr not_empty"
    by (auto simp: market_upload_stocks_def split: sum.splits)
  from st obtain R' where R': "market_create_stocks d L ids wh = (Inr st, R')"
    by (cases "market_create_stocks d L ids wh") auto
  then obtain outs where outs: "st = map (to_market wh d) outs"
    by (rule market_create_stocks_Inr)
  from eq(2) have "not_empty = filter (\<lambda>s. item_count (hd (items s)) \<noteq> 0) st"
    unfolding outs by (simp add: market_not_empty_records)
  moreover have "\<forall>s\<in>set st. \<exists>q. items s = [\<lparr>item_count = q, item_type = py ''FIT'', updatedAt = d\<rparr>]"
    unfolding outs by (auto simp: to_market_def market_record_def)
  ultimately show ?thesis using ids R' eq(1) by blast
qed

lemma seller_upload_stocks_succeeds:
  assumes "seller_get_offer_ids srv = Some (Inr ids)"
    and "seller_create_stocks L ids = (Inr stocks, R')"
    and "\<forall>k b. \<exists>j. upd k b = Inr j"
  shows "seller_upload_stocks srv upd L = Some (Inr (filter (\<lambda>s. stock s \<noteq> 0) stocks, stocks))"
proof -
  obtain batches where "divide stocks 100 = Inr batches"
    using divide_pos [of 100 stocks] by auto
  with assms submit_all_ok [OF assms(3)] show ?thesis
    by (simp add: seller_upload_stocks_def)
qed

lemma market_upload_stocks_succeeds:
  assumes "market_get_offer_ids srv = Some (Inr ids)"
    and "market_create_stocks d L ids wh = (Inr stocks, R')"
    and "\<forall>k b. \<exists>j. upd k b = Inr j"
  shows "market_upload_stocks d srv upd L wh =
           Some (Inr (filter (\<lambda>s. item_count (hd (items s)) \<noteq> 0) stocks, stocks))"
proof -
  obtain batches where "divide stocks 2000 = Inr batches"
    using divide_pos [of 2000 stocks] by auto
  moreover from assms(2) obtain outs where "stocks = map (to_market wh d) outs"
    by (rule market_create_stocks_Inr)
  then have "market_not_empty stocks = Inr (filter (\<lambda>s. item_count (hd (items s)) \<noteq> 0) stocks)"
    by (simp add: market_not_empty_records)
  ultimately show ?thesis using assms submit_all_ok [OF assms(3)]
    by (simp add: market_upload_stocks_def)
qed

text \<open>
  C10: a pair returned by upload_stocks holds, second, the stock list that create_stocks
  built from the listed offer ids and, first, the records of that list whose quantity
  is not zero, in the same order; and upload_stocks does return that pair when the
  listing, the reconciliation and every batch upload succeed.
\<close>

theorem C10_upload_stocks_pair:
  "(seller_upload_stocks srv upd L = Some (Inr (not_empty, stocks)) \<longrightarrow>
      (\<exists>ids R'. seller_get_offer_ids srv = Some (Inr ids) \<and>
                 seller_create_stocks L ids = (Inr stocks, R')) \<and>
      not_empty = filter (\<lambda>s. stock s \<noteq> 0) stocks)
   \<and> (seller_get_offer_ids srv = Some (Inr ids) \<and> seller_create_stocks L ids = (Inr all_stocks, R') \<and>
      (\<forall>k b. \<exists>j. upd k b = Inr j) \<longrightarrow>
      seller_upload_stocks srv upd L = Some (Inr (filter (\<lambda>s. stock s \<noteq> 0) all_stocks, all_stocks)))
   \<and> (market_upload_stocks date ysrv yupd L warehouse_id = Some (Inr (not_empty_m, stocks_m)) \<longrightarrow>
      (\<exists>ids R'. market_get_offer_ids ysrv = Some (Inr ids) \<and>
                 market_create_stocks date L ids warehouse_id = (Inr stocks_m, R')) \<and>
      (\<forall>s\<in>set stocks_m. \<exists>q. items s = [\<lparr>item_count = q, item_type = py ''FIT'', updatedAt = date\<rparr>]) \<and>
      not_empty_m = filter (\<lambda>s. item_count (hd (items s)) \<noteq> 0) stocks_m)
   \<and> (market_get_offer_ids ysrv = Some (Inr yids) \<and>
      market_create_stocks date L yids warehouse_id = (Inr all_stocks_m, R_m) \<and>
      (\<forall>k b. \<exists>j. yupd k b = Inr j) \<longrightarrow>
      market_upload_stocks date ysrv yupd L warehouse_id =
        Some (Inr (filter (\<lambda>s. item_count (hd (items s)) \<noteq> 0) all_stocks_m, all_stocks_m)))"
  using seller_upload_stocks_returns [of srv upd L not_empty stocks]
    seller_upload_stocks_succeeds [of srv ids L all_stocks R' upd]
    market_upload_stocks_returns [of date ysrv yupd L warehouse_id not_empty_m stocks_m]
    market_upload_stocks_succeeds [of ysrv yids date L warehouse_id all_stocks_m R_m yupd]
  by blast

theorem C10_upload_stocks_pair_witness:
  "seller_upload_stocks ozon_example (\<lambda>k b. Inr ())
       [mk_row (PyStr (py ''001'')) (PyStr (py ''>10'')) PyNone, mk_row (PyStr (py ''002'')) (PyStr (py ''1'')) PyNone]
     = Some (Inr ([\<lparr>stock_offer_id = py ''001'', stock = 100\<rparr>],
                  [\<lparr>stock_offer_id = py ''001'', stock = 100\<rparr>, \<lparr>stock_offer_id = py ''002'', stock = 0\<rparr>,
                   \<lparr>stock_offer_id = py ''003'', stock = 0\<rparr>]))
   \<and> market_upload_stocks (py ''D'') yandex_example (\<lambda>k b. Inr ())
       [mk_row (PyStr (py ''001'')) (PyStr (py ''>10'')) PyNone, mk_row (PyStr (py ''002'')) (PyStr (py ''1'')) PyNone] (py ''W'')
     = Some (Inr ([market_record (py ''W'') (py ''D'') (py ''001'') 100],
                  [market_record (py ''W'') (py ''D'') (py ''001'') 100, market_record (py ''W'') (py ''D'') (py ''002'') 0,
                   market_record (py ''W'') (py ''D'') (py ''003'') 0]))"
proof -
  let ?L = "[mk_row (PyStr (py ''001'')) (PyStr (py ''>10'')) PyNone, mk_row (PyStr (py ''002'')) (PyStr (py ''1'')) PyNone]"
  let ?ids = "[py ''001'', py ''002'', py ''003'']"
  let ?st = "[\<lparr>stock_offer_id = py ''001'', stock = 100\<rparr>, \<lparr>stock_offer_id = py ''002'', stock = 0\<rparr>,
              \<lparr>stock_offer_id = py ''003'', stock = 0\<rparr>]"
  let ?stm = "[market_record (py ''W'') (py ''D'') (py ''001'') 100, market_record (py ''W'') (py ''D'') (py ''002'') 0,
               market_record (py ''W'') (py ''D'') (py ''003'') 0]"
  let ?upd = "\<lambda>(k::nat) (b::seller_stock list). (Inr () :: error + unit)"
  let ?updm = "\<lambda>(k::nat) (b::market_stock list). (Inr () :: error + unit)"
  have "ozon_pages ozon_example 0 [] (length ([] :: ozon_product list))
          [\<lparr>page_items = [\<lparr>product_offer_id = py ''001''\<rparr>, \<lparr>product_offer_id = py ''002''\<rparr>],
               page_total = 3, page_last_id = py ''t1''\<rparr>,
           \<lparr>page_items = [\<lparr>product_offer_id = py ''003''\<rparr>], page_total = 3, page_last_id = []\<rparr>]"
    by (simp add: ozon_example_def)
  from ozon_listing_pages [OF this]
  have ids: "seller_get_offer_ids ozon_example = Some (Inr ?ids)"
    by (simp add: seller_get_offer_ids_def)
  have "yandex_pages yandex_example 0 (Some [])
          [\<lparr>offerMappingEntries = [\<lparr>shopSku = py ''001''\<rparr>, \<lparr>shopSku = py ''002''\<rparr>],
               nextPageToken = Some (py ''t1'')\<rparr>,
           \<lparr>offerMappingEntries = [\<lparr>shopSku = py ''003''\<rparr>], nextPageToken = None\<rparr>]"
    by (simp add: yandex_example_def)
  from yandex_listing_pages [OF this, of "[]"]
  have yids: "market_get_offer_ids yandex_example = Some (Inr ?ids)"
    by (simp add: market_get_offer_ids_def)
  have cs: "seller_create_stocks ?L ?ids = (Inr ?st, [py ''003''])"
    by (simp add: seller_create_stocks_def resolve_stock_def py_str_def)
  have cm: "market_create_stocks (py ''D'') ?L ?ids (py ''W'') = (Inr ?stm, [py ''003''])"
    by (simp add: market_create_stocks_def resolve_stock_def py_str_def)
  have u: "\<forall>k b. \<exists>j. ?upd k b = Inr j" "\<forall>k b. \<exists>j. ?updm k b = Inr j"
    by simp_all
  note inst = C10_upload_stocks_pair [of ozon_example ?upd ?L
      "[\<lparr>stock_offer_id = py ''001'', stock = 100\<rparr>]" ?st ?ids ?st "[py ''003'']"
      "(py ''D'')" yandex_example ?updm "(py ''W'')" "[market_record (py ''W'') (py ''D'') (py ''001'') 100]" ?stm
      ?ids ?stm "[py ''003'']"]
  from inst ids cs u(1)
  have "seller_upload_stocks ozon_example ?upd ?L = Some (Inr (filter (\<lambda>s. stock s \<noteq> 0) ?st, ?st))"
    by blast
  moreover from inst yids cm u(2)
  have "market_upload_stocks (py ''D'') yandex_example ?updm ?L (py ''W'')
          = Some (Inr (filter (\<lambda>s. item_count (hd (items s)) \<noteq> 0) ?stm, ?stm))"
    by blast
  ultimately show ?thesis by (simp add: market_record_def)
qed

end
